theory Spec2Isabelle
  imports Complex_Main "HOL-Library.Sublist"
begin

section \<open>The TUI JXL converter (mkjxl.py)\<close>

text \<open>
  A shallow embedding of \<^verbatim>\<open>src/mkjxl.py\<close>: the class \<^verbatim>\<open>JxlConverterTUI\<close>, its two
  dialogs, and the external world they act on (the file system, the keyboard, the
  external encoder and sanitizer processes). Python exceptions are values of the type
  \<open>error\<close>. Rendering (the \<^verbatim>\<open>draw_*\<close> methods) and the debug log are left out: they
  write to the screen and to a log file only.
\<close>

datatype error =
    KeyError
  | IndexError
  | TypeError
  | OSError
  | FileNotFoundError
  | FileExistsError
  | NotADirectoryError
  | PermissionError
  | ValueError

subsection \<open>Python strings and numbers\<close>

text \<open>
  A Python \<^verbatim>\<open>str\<close> is modelled as a \<open>string\<close> of 8-bit characters: the code points
  0 to 255. \<^verbatim>\<open>str(n)\<close> of a non-negative integer is its decimal representation.
\<close>

definition digit_char :: "nat \<Rightarrow> char" where
  "digit_char d = ''0123456789'' ! d"

function str_nat :: "nat \<Rightarrow> string" where
  "str_nat n = (if n < 10 then [digit_char n] else str_nat (n div 10) @ [digit_char (n mod 10)])"
  by pat_completeness auto
termination
  by (relation "measure id") auto

declare str_nat.simps [simp del]

definition str_int :: "int \<Rightarrow> string" where
  "str_int i = (if i < 0 then ''-'' @ str_nat (nat (- i)) else str_nat (nat i))"

text \<open>\<^verbatim>\<open>c.isdigit()\<close> on the code points 0 to 255: the ASCII digits, and the superscripts
  two, three and one (178, 179, 185), which \<^verbatim>\<open>int()\<close> refuses.\<close>

definition is_ascii_digit :: "char \<Rightarrow> bool" where
  "is_ascii_digit c = (48 \<le> (of_char c :: nat) \<and> (of_char c :: nat) \<le> 57)"

definition char_isdigit :: "char \<Rightarrow> bool" where
  "char_isdigit c = (is_ascii_digit c \<or> (of_char c :: nat) \<in> {178, 179, 185})"

definition isdigit :: "string \<Rightarrow> bool" where
  "isdigit s = (s \<noteq> [] \<and> list_all char_isdigit s)"

definition digit_val :: "char \<Rightarrow> nat" where
  "digit_val c = (of_char c :: nat) - 48"

definition int_of_digits :: "string \<Rightarrow> nat" where
  "int_of_digits s = foldl (\<lambda>a c. 10 * a + digit_val c) 0 s"

text \<open>\<^verbatim>\<open>int(s)\<close> as the code calls it: on a string for which \<^verbatim>\<open>isdigit()\<close> holds. The
  limit that recent versions of Python put on the number of digits (4300 by default,
  \<^verbatim>\<open>ValueError\<close> beyond) is not part of the model.\<close>

definition py_int :: "string \<Rightarrow> error + int" where
  "py_int s = (if s \<noteq> [] \<and> list_all is_ascii_digit s then Inr (int (int_of_digits s)) else Inl ValueError)"

text \<open>\<^verbatim>\<open>s.lower()\<close>, on the ASCII letters.\<close>

definition lower_char :: "char \<Rightarrow> char" where
  "lower_char c =
     (case map_of (zip ''ABCDEFGHIJKLMNOPQRSTUVWXYZ'' ''abcdefghijklmnopqrstuvwxyz'') c of
        Some d \<Rightarrow> d
      | None \<Rightarrow> c)"

definition lower :: "string \<Rightarrow> string" where
  "lower s = map lower_char s"

text \<open>\<^verbatim>\<open>s.strip()\<close> removes leading and trailing whitespace; \<^verbatim>\<open>s.splitlines()\<close> splits
  at line boundaries, \<^verbatim>\<open>\r\n\<close> counting as one, and gives no empty last line.\<close>

definition isspace :: "char \<Rightarrow> bool" where
  "isspace c = ((of_char c :: nat) \<in> {9, 10, 11, 12, 13, 28, 29, 30, 31, 32, 133, 160})"

definition is_linebreak :: "char \<Rightarrow> bool" where
  "is_linebreak c = ((of_char c :: nat) \<in> {10, 11, 12, 13, 28, 29, 30, 133})"

definition strip :: "string \<Rightarrow> string" where
  "strip s = rev (dropWhile isspace (rev (dropWhile isspace s)))"

fun splitlines_acc :: "string \<Rightarrow> string \<Rightarrow> string list" where
  "splitlines_acc cur [] = (if cur = [] then [] else [cur])"
| "splitlines_acc cur (c # cs) =
     (if is_linebreak c then
        cur # splitlines_acc []
          (if (of_char c :: nat) = 13 \<and> cs \<noteq> [] \<and> (of_char (hd cs) :: nat) = 10 then tl cs else cs)
      else splitlines_acc (cur @ [c]) cs)"

definition splitlines :: "string \<Rightarrow> string list" where
  "splitlines s = splitlines_acc [] s"

text \<open>
  Python floats are modelled by exact rationals. \<^verbatim>\<open>f"{x:.1f}"\<close> rounds the exact value of
  the float to \<open>d\<close> decimals, ties to even, and keeps the sign of a negative value that
  rounds to zero. Dividing an integer below \<open>2^53\<close> by 1024 is exact in floating point, so
  the model and Python agree on the quotients of \<^verbatim>\<open>_format_bytes\<close> for every file size; for
  the percentage they can differ where the exact value is within a float's rounding
  error of a tie.
\<close>

definition round_half_even :: "rat \<Rightarrow> int" where
  "round_half_even x =
     (let f = \<lfloor>x\<rfloor>; r = x - of_int f
      in if r < 1 / 2 then f else if 1 / 2 < r then f + 1 else if even f then f else f + 1)"

definition zero_pad :: "nat \<Rightarrow> string \<Rightarrow> string" where
  "zero_pad d s = replicate (d - length s) (CHR ''0'') @ s"

definition format_f :: "nat \<Rightarrow> rat \<Rightarrow> string" where
  "format_f d x =
     (let m = nat (round_half_even (\<bar>x\<bar> * 10 ^ d))
      in (if x < 0 then ''-'' else '''') @ str_nat (m div 10 ^ d) @ ''.'' @ zero_pad d (str_nat (m mod 10 ^ d)))"

subsection \<open>\<^verbatim>\<open>_format_bytes\<close>\<close>

definition power_labels :: "(nat \<times> string) list" where
  "power_labels = [(0, ''''), (1, ''K''), (2, ''M''), (3, ''G''), (4, ''T'')]"

text \<open>The loop \<^verbatim>\<open>while size_bytes >= power and n < len(power_labels)\<close>, with
  \<^verbatim>\<open>power = 1024\<close>.\<close>

function format_bytes_loop :: "rat \<Rightarrow> nat \<Rightarrow> rat \<times> nat" where
  "format_bytes_loop size_bytes n =
     (if 1024 \<le> size_bytes \<and> n < length power_labels
      then format_bytes_loop (size_bytes / 1024) (n + 1)
      else (size_bytes, n))"
  by pat_completeness auto
termination
  by (relation "measure (\<lambda>(s, n). length power_labels - n)") auto

declare format_bytes_loop.simps [simp del]

definition format_bytes :: "int \<Rightarrow> error + string" where
  "format_bytes size_bytes =
     (if size_bytes \<le> 0 then Inr ''0B''
      else case format_bytes_loop (of_int size_bytes) 0 of
        (sz, n) \<Rightarrow>
          (case map_of power_labels n of
             None \<Rightarrow> Inl KeyError
           | Some label \<Rightarrow> Inr (format_f 1 sz @ label @ ''B'')))"

subsection \<open>Paths and the file system\<close>

text \<open>
  A \<^verbatim>\<open>pathlib.Path\<close> is modelled by the list of its components below the root (every
  path the program handles is absolute: \<^verbatim>\<open>initial_dir\<close> and \<^verbatim>\<open>output_dir\<close> are resolved).
  \<open>stem_of\<close> and \<open>suffix_of\<close> follow \<^verbatim>\<open>PurePath.stem\<close> and \<^verbatim>\<open>PurePath.suffix\<close>: the name is
  cut at its last dot, unless that dot is the first or the last character.
\<close>

type_synonym path = "string list"

definition str_path :: "path \<Rightarrow> string" where
  "str_path p = (if p = [] then ''/'' else concat (map (\<lambda>c. ''/'' @ c) p))"

definition path_name :: "path \<Rightarrow> string" where
  "path_name p = (if p = [] then [] else last p)"

definition parent :: "path \<Rightarrow> path" where
  "parent p = butlast p"

definition joinpath :: "path \<Rightarrow> string \<Rightarrow> path" where
  "joinpath d n = d @ [n]"

definition rfind :: "char \<Rightarrow> string \<Rightarrow> int" where
  "rfind c s =
     (if c \<in> set s then int (length s) - 1 - int (length (takeWhile (\<lambda>x. x \<noteq> c) (rev s))) else - 1)"

definition stem_of :: "string \<Rightarrow> string" where
  "stem_of n = (let i = rfind (CHR ''.'') n in if 0 < i \<and> i < int (length n) - 1 then take (nat i) n else n)"

definition suffix_of :: "string \<Rightarrow> string" where
  "suffix_of n = (let i = rfind (CHR ''.'') n in if 0 < i \<and> i < int (length n) - 1 then drop (nat i) n else [])"

definition stem :: "path \<Rightarrow> string" where
  "stem p = stem_of (path_name p)"

definition path_suffix :: "path \<Rightarrow> string" where
  "path_suffix p = suffix_of (path_name p)"

text \<open>\<^verbatim>\<open>p.relative_to(base)\<close> raises \<^verbatim>\<open>ValueError\<close> (here \<open>None\<close>) when \<open>p\<close> is not below
  \<open>base\<close>.\<close>

definition relative_to :: "path \<Rightarrow> path \<Rightarrow> path option" where
  "relative_to p base = (if prefix base p then Some (drop (length base) p) else None)"

text \<open>
  The file system: the existing paths, each a directory or a file with its size, and the
  directories the operating system refuses to create (a read-only parent, say). The root
  always exists.
\<close>

datatype node = Node (is_dir: bool) (st_size: int)

record filesys =
  nodes :: "(path \<times> node) list"
  mkdir_denied :: "path list"

definition lookup :: "filesys \<Rightarrow> path \<Rightarrow> node option" where
  "lookup fs p = (if p = [] then Some (Node True 0) else map_of (nodes fs) p)"

definition path_exists :: "filesys \<Rightarrow> path \<Rightarrow> bool" where
  "path_exists fs p = (lookup fs p \<noteq> None)"

definition stat_size :: "filesys \<Rightarrow> path \<Rightarrow> error + int" where
  "stat_size fs p = (case lookup fs p of None \<Rightarrow> Inl FileNotFoundError | Some n \<Rightarrow> Inr (st_size n))"

text \<open>\<^verbatim>\<open>p.unlink(missing_ok=True)\<close>.\<close>

definition unlink :: "filesys \<Rightarrow> path \<Rightarrow> filesys" where
  "unlink fs p = fs\<lparr>nodes := filter (\<lambda>(q, n). q \<noteq> p) (nodes fs)\<rparr>"

text \<open>
  \<^verbatim>\<open>d.mkdir(parents=True, exist_ok=True)\<close>, over the non-empty prefixes of \<open>d\<close>, shortest
  first: an existing directory is kept, an existing file is an error, a missing directory
  is created unless the system refuses. The directories created before an error stay.
\<close>

fun mkdir_each :: "filesys \<Rightarrow> path list \<Rightarrow> (error \<times> filesys) + filesys" where
  "mkdir_each fs [] = Inr fs"
| "mkdir_each fs (q # qs) =
     (case lookup fs q of
        Some n \<Rightarrow>
          if is_dir n then mkdir_each fs qs
          else Inl (if qs = [] then FileExistsError else NotADirectoryError, fs)
      | None \<Rightarrow>
          if q \<in> set (mkdir_denied fs) then Inl (PermissionError, fs)
          else mkdir_each (fs\<lparr>nodes := (q, Node True 0) # nodes fs\<rparr>) qs)"

definition mkdir_parents :: "filesys \<Rightarrow> path \<Rightarrow> (error \<times> filesys) + filesys" where
  "mkdir_parents fs d = mkdir_each fs (tl (prefixes d))"

subsection \<open>The world outside the program\<close>

text \<open>
  \<open>keys\<close> is what \<^verbatim>\<open>getch\<close> will return, in order, to the main loop and to the dialogs
  (\<open>- 1\<close>: no key is waiting). \<open>run_process\<close> is what an external command does: how
  \<^verbatim>\<open>subprocess.run\<close> ends (an \<^verbatim>\<open>OSError\<close> when the command cannot be started, or the exit
  code and the captured standard error) and the file system it leaves. \<open>invocations\<close>
  records every command passed to \<^verbatim>\<open>subprocess.run\<close>, in order. \<open>found_files\<close> is the sorted
  result of the directory scan of \<^verbatim>\<open>load_files\<close> for a value of \<^verbatim>\<open>recursive\<close>, or the text of
  the exception it raised. \<open>resolve\<close> is \<^verbatim>\<open>Path(s).expanduser().resolve()\<close>, \<open>now\<close> is
  \<^verbatim>\<open>time.time()\<close>, \<open>maxyx\<close> the size of the terminal and \<open>worker_schedule\<close> the number of
  iterations the worker thread makes before each tick of the main loop.
\<close>

datatype completed = Completed (returncode: int) (stderr: string)

record env =
  filesystem :: filesys
  keys :: "int list"
  now :: rat
  maxyx :: "int \<times> int"
  tempdir :: path
  run_process :: "string list \<Rightarrow> filesys \<Rightarrow> (error + completed) \<times> filesys"
  invocations :: "string list list"
  found_files :: "bool \<Rightarrow> string + path list"
  resolve :: "string \<Rightarrow> path"
  worker_schedule :: "nat list"

definition subprocess_run :: "string list \<Rightarrow> env \<Rightarrow> (error + completed) \<times> env" where
  "subprocess_run cmd e =
     (case run_process e cmd (filesystem e) of
        (r, fs') \<Rightarrow> (r, e\<lparr>filesystem := fs', invocations := invocations e @ [cmd]\<rparr>))"

text \<open>
  How a call ends: it returns, it raises (with the state it leaves behind), or it never
  returns, because a dialog waits for a key that does not come or the modelled ticks of
  the main loop run out.
\<close>

datatype 'a outcome = Returned 'a | Raised error 'a | Blocked

subsection \<open>The dialogs\<close>

definition KEY_DOWN :: int where "KEY_DOWN = 258"
definition KEY_UP :: int where "KEY_UP = 259"
definition KEY_BACKSPACE :: int where "KEY_BACKSPACE = 263"
definition KEY_F5 :: int where "KEY_F5 = 269"
definition KEY_NPAGE :: int where "KEY_NPAGE = 338"
definition KEY_PPAGE :: int where "KEY_PPAGE = 339"
definition KEY_ENTER :: int where "KEY_ENTER = 343"
definition KEY_RESIZE :: int where "KEY_RESIZE = 410"

definition ord :: "char \<Rightarrow> int" where
  "ord c = of_char c"

definition chr :: "int \<Rightarrow> char" where
  "chr k = char_of k"

text \<open>\<^verbatim>\<open>ConfirmationDialog.run\<close>: reads keys until y, Y, n, N or ESC.\<close>

fun confirmation_dialog_run :: "int list \<Rightarrow> (bool \<times> int list) option" where
  "confirmation_dialog_run [] = None"
| "confirmation_dialog_run (key # ks) =
     (if key \<in> {ord (CHR ''y''), ord (CHR ''Y'')} then Some (True, ks)
      else if key \<in> {ord (CHR ''n''), ord (CHR ''N''), 27} then Some (False, ks)
      else confirmation_dialog_run ks)"

text \<open>\<^verbatim>\<open>InputDialog.run\<close>, from the text so far: \<open>None\<close> inside is the \<^verbatim>\<open>None\<close> the dialog
  returns on ESC or a resize.\<close>

fun input_dialog_run :: "string \<Rightarrow> int list \<Rightarrow> (string option \<times> int list) option" where
  "input_dialog_run text [] = None"
| "input_dialog_run text (key # ks) =
     (if key = KEY_RESIZE then Some (None, ks)
      else if key \<in> {10, KEY_ENTER} then Some (Some text, ks)
      else if key = 27 then Some (None, ks)
      else if key \<in> {KEY_BACKSPACE, 127} then input_dialog_run (butlast text) ks
      else if 32 \<le> key \<and> key \<le> 126 then input_dialog_run (text @ [chr key]) ks
      else input_dialog_run text ks)"

subsection \<open>The state of the converter\<close>

text \<open>
  The status strings of the source form a closed set, modelled by a datatype. A
  \<open>status_record\<close> is one value of the dictionary \<^verbatim>\<open>self.statuses\<close>, a \<open>status_update\<close> one
  message of \<^verbatim>\<open>self.status_queue\<close> (the dictionary \<^verbatim>\<open>_update_status\<close> builds), a \<open>task\<close> one
  entry of \<^verbatim>\<open>self.conversion_queue\<close>. \<open>tui\<close> holds the attributes of \<^verbatim>\<open>JxlConverterTUI\<close>;
  \<open>conversion_thread_alive\<close> stands for \<^verbatim>\<open>conversion_thread\<close> being a live thread, and
  \<open>stop_thread\<close> for the event being set.
\<close>

datatype status = PENDING | QUEUED | SANITIZING | CONVERTING | SUCCESS | FAILED

record status_record =
  status :: status
  message :: string
  info_str :: string
  target_path :: "path option"
  size_before :: "int option"
  size_after :: "int option"

record status_update =
  u_idx :: nat
  u_status :: status
  u_message :: "string option"
  u_size_before :: "int option"
  u_size_after :: "int option"

record task =
  t_idx :: nat
  t_target_path :: path
  t_sanitize :: bool

record tui =
  initial_dir :: path
  files :: "path list"
  selected :: "nat set"
  statuses :: "nat \<rightharpoonup> status_record"
  failed_indices :: "nat set"
  current_row :: int
  scroll_offset :: int
  status_message :: string
  status_message_color :: nat
  quality :: int
  effort :: int
  recursive :: bool
  delete_originals :: bool
  show_only_failed :: bool
  debug_enabled :: bool
  output_dir :: "path option"
  conversion_queue :: "task list"
  status_queue :: "status_update list"
  conversion_thread_alive :: bool
  is_converting :: bool
  stop_thread :: bool
  total_bytes_before :: int
  total_bytes_after :: int
  conversions_success :: nat
  conversions_failed :: nat
  start_time :: rat
  last_conversion_summary :: string
  cjxl_cmd :: "string option"
  imagemagick_cmd :: "string option"

text \<open>The truth value of \<^verbatim>\<open>self.cjxl_cmd\<close> and \<^verbatim>\<open>self.imagemagick_cmd\<close>: what
  \<^verbatim>\<open>shutil.which\<close> returned is \<^verbatim>\<open>None\<close> or a path.\<close>

definition truthy :: "string option \<Rightarrow> bool" where
  "truthy c = (case c of None \<Rightarrow> False | Some p \<Rightarrow> p \<noteq> [])"

definition show_message :: "string \<Rightarrow> nat \<Rightarrow> tui \<Rightarrow> tui" where
  "show_message msg color s = s\<lparr>status_message := msg, status_message_color := color\<rparr>"

definition pending_record :: status_record where
  "pending_record =
     \<lparr>status = PENDING, message = [], info_str = [], target_path = None,
      size_before = None, size_after = None\<rparr>"

definition load_files :: "tui \<Rightarrow> env \<Rightarrow> tui" where
  "load_files s e =
     (let s1 = s\<lparr>files := [], statuses := Map.empty, selected := {}, failed_indices := {},
                 current_row := 0, scroll_offset := 0\<rparr>
      in case found_files e (recursive s) of
           Inr found \<Rightarrow>
             s1\<lparr>files := found,
                statuses := (\<lambda>i. if i < length found then Some pending_record else None)\<rparr>
         | Inl msg \<Rightarrow> show_message (''Error loading files: '' @ msg) 4 s1)"

text \<open>\<^verbatim>\<open>__init__\<close>: the defaults, then \<^verbatim>\<open>load_files\<close>. \<open>cwd\<close> is \<^verbatim>\<open>Path.cwd()\<close>, \<open>cjxl\<close> and
  \<open>magick\<close> are what \<^verbatim>\<open>shutil.which\<close> finds.\<close>

definition init :: "path \<Rightarrow> path \<Rightarrow> string option \<Rightarrow> string option \<Rightarrow> env \<Rightarrow> tui" where
  "init dir cwd cjxl magick e =
     load_files
       \<lparr>initial_dir = dir, files = [], selected = {}, statuses = Map.empty, failed_indices = {},
        current_row = 0, scroll_offset = 0, status_message = [], status_message_color = 5,
        quality = 90, effort = 7, recursive = False, delete_originals = False,
        show_only_failed = False, debug_enabled = False,
        output_dir = Some (joinpath cwd ''converted''),
        conversion_queue = [], status_queue = [], conversion_thread_alive = False,
        is_converting = False, stop_thread = False,
        total_bytes_before = 0, total_bytes_after = 0,
        conversions_success = 0, conversions_failed = 0, start_time = 0,
        last_conversion_summary = [], cjxl_cmd = cjxl, imagemagick_cmd = magick\<rparr>
       e"

definition get_visible_files :: "tui \<Rightarrow> error + (nat \<times> path) list" where
  "get_visible_files s =
     (if show_only_failed s then
        (let idxs = sorted_list_of_set (failed_indices s)
         in if list_all (\<lambda>i. i < length (files s)) idxs
            then Inr (map (\<lambda>i. (i, files s ! i)) idxs)
            else Inl IndexError)
      else Inr (enumerate 0 (files s)))"

subsection \<open>The status channel and the aggregator\<close>

definition update_status ::
  "nat \<Rightarrow> status \<Rightarrow> string option \<Rightarrow> int option \<Rightarrow> int option \<Rightarrow> tui \<Rightarrow> tui" where
  "update_status idx st msg before after s =
     s\<lparr>status_queue := status_queue s @
          [\<lparr>u_idx = idx, u_status = st, u_message = msg,
            u_size_before = before, u_size_after = after\<rparr>]\<rparr>"

definition set_info_str :: "nat \<Rightarrow> string \<Rightarrow> tui \<Rightarrow> tui" where
  "set_info_str idx info_text s =
     (case statuses s idx of
        None \<Rightarrow> s
      | Some r \<Rightarrow> s\<lparr>statuses := (statuses s)(idx \<mapsto> r\<lparr>info_str := info_text\<rparr>)\<rparr>)"

text \<open>\<^verbatim>\<open>self.statuses[idx].update(update)\<close>: the keys the message carries overwrite the
  record's.\<close>

definition merge_update :: "status_update \<Rightarrow> status_record \<Rightarrow> status_record" where
  "merge_update update r =
     r\<lparr>status := u_status update,
       message := (case u_message update of None \<Rightarrow> message r | Some m \<Rightarrow> m),
       size_before := (case u_size_before update of None \<Rightarrow> size_before r | Some b \<Rightarrow> Some b),
       size_after := (case u_size_after update of None \<Rightarrow> size_after r | Some b \<Rightarrow> Some b)\<rparr>"

text \<open>The text the aggregator shows for a success: \<^verbatim>\<open>f"{self._format_bytes(savings)} saved
  ({savings_pct:.1f}%)"\<close>.\<close>

definition savings_info :: "int \<Rightarrow> int \<Rightarrow> error + string" where
  "savings_info b_before b_after =
     (let savings = b_before - b_after;
          savings_pct = (if 0 < b_before then of_int savings / of_int b_before * 100 else 0)
      in case format_bytes savings of
           Inl err \<Rightarrow> Inl err
         | Inr saved \<Rightarrow> Inr (saved @ '' saved ('' @ format_f 1 savings_pct @ ''%)''))"

text \<open>The body of the loop of \<^verbatim>\<open>_process_status_queue\<close> for one message.\<close>

definition apply_update :: "status_update \<Rightarrow> tui \<Rightarrow> tui outcome" where
  "apply_update update s =
     (let idx = u_idx update
      in case statuses s idx of
           None \<Rightarrow> Returned s
         | Some r \<Rightarrow>
             (let s1 = s\<lparr>statuses := (statuses s)(idx \<mapsto> merge_update update r)\<rparr>
              in if u_status update = SUCCESS then
                   (let s2 = s1\<lparr>conversions_success := conversions_success s1 + 1\<rparr>;
                        b_before = (case u_size_before update of None \<Rightarrow> 0 | Some b \<Rightarrow> b);
                        b_after = (case u_size_after update of None \<Rightarrow> 0 | Some b \<Rightarrow> b)
                    in if b_before \<noteq> 0 \<and> b_after \<noteq> 0 then
                         (let s3 = s2\<lparr>total_bytes_before := total_bytes_before s2 + b_before,
                                      total_bytes_after := total_bytes_after s2 + b_after\<rparr>
                          in case savings_info b_before b_after of
                               Inl err \<Rightarrow> Raised err s3
                             | Inr info_text \<Rightarrow> Returned (set_info_str idx info_text s3))
                       else Returned (set_info_str idx [] s2))
                 else if u_status update = FAILED then
                   Returned
                     (set_info_str idx
                        (case u_message update of None \<Rightarrow> ''Unknown Error'' | Some m \<Rightarrow> m)
                        (s1\<lparr>conversions_failed := conversions_failed s1 + 1,
                            failed_indices := insert idx (failed_indices s1)\<rparr>))
                 else Returned (set_info_str idx [] s1)))"

text \<open>The loop \<^verbatim>\<open>while not self.status_queue.empty()\<close>, over the messages waiting.\<close>

fun drain :: "status_update list \<Rightarrow> tui \<Rightarrow> tui outcome" where
  "drain [] s = Returned s"
| "drain (update # rest) s =
     (case apply_update update (s\<lparr>status_queue := rest\<rparr>) of
        Returned s' \<Rightarrow> drain rest s'
      | Raised err s' \<Rightarrow> Raised err s'
      | Blocked \<Rightarrow> Blocked)"

subsection \<open>The path resolver\<close>

lemma int_of_digits_snoc: "int_of_digits (s @ [c]) = 10 * int_of_digits s + digit_val c"
  by (simp add: int_of_digits_def)

lemma digit_val_digit_char: "d < 10 \<Longrightarrow> digit_val (digit_char d) = d"
proof -
  assume "d < 10"
  then have "d \<in> {0, 1, 2, 3, 4, 5, 6, 7, 8, 9}" by auto
  then show ?thesis by (auto simp: digit_val_def digit_char_def)
qed

lemma int_of_digits_str_nat: "int_of_digits (str_nat n) = n"
proof (induction n rule: str_nat.induct)
  case (1 n)
  show ?case
  proof (cases "n < 10")
    case True
    then show ?thesis
      by (subst str_nat.simps) (simp add: int_of_digits_def digit_val_digit_char)
  next
    case False
    then have "int_of_digits (str_nat n) = 10 * (n div 10) + n mod 10"
      using "1.IH" by (subst str_nat.simps) (simp add: int_of_digits_snoc digit_val_digit_char)
    then show ?thesis by simp
  qed
qed

lemma inj_str_nat: "inj str_nat"
  by (rule inj_on_inverseI [where g = int_of_digits]) (rule int_of_digits_str_nat)

text \<open>The candidates of \<^verbatim>\<open>_get_unique_target_path\<close>: \<^verbatim>\<open><stem>.jxl\<close>, then
  \<^verbatim>\<open><stem>-<counter>.jxl\<close>.\<close>

definition numbered :: "path \<Rightarrow> string \<Rightarrow> nat \<Rightarrow> path" where
  "numbered target_dir stm counter = joinpath target_dir (stm @ ''-'' @ str_nat counter @ ''.jxl'')"

definition taken :: "filesys \<Rightarrow> string list \<Rightarrow> path \<Rightarrow> bool" where
  "taken fs existing_targets p = (str_path p \<in> set existing_targets \<or> path_exists fs p)"

lemma inj_numbered: "inj (numbered target_dir stm)"
  by (rule injI) (simp add: numbered_def joinpath_def inj_str_nat [THEN injD])

lemma str_path_snoc: "str_path (d @ [n]) = (if d = [] then [] else str_path d) @ ''/'' @ n"
  by (simp add: str_path_def)

lemma inj_str_numbered: "inj (\<lambda>n. str_path (numbered target_dir stm n))"
  by (rule injI) (simp add: numbered_def joinpath_def str_path_snoc inj_str_nat [THEN injD])

lemma path_exists_iff: "path_exists fs p \<longleftrightarrow> p = [] \<or> p \<in> fst ` set (nodes fs)"
proof -
  have "map_of (nodes fs) p \<noteq> None \<longleftrightarrow> p \<in> fst ` set (nodes fs)"
    by (simp only: map_of_eq_None_iff) simp
  then show ?thesis by (simp add: path_exists_def lookup_def)
qed

lemma finite_taken: "finite {n. taken fs existing_targets (numbered target_dir stm n)}"
proof -
  have "{n. taken fs existing_targets (numbered target_dir stm n)}
      \<subseteq> (\<lambda>n. str_path (numbered target_dir stm n)) -` set existing_targets
        \<union> numbered target_dir stm -` insert [] (fst ` set (nodes fs))"
    by (auto simp: taken_def path_exists_iff)
  moreover have "finite ((\<lambda>n. str_path (numbered target_dir stm n)) -` set existing_targets)"
    by (rule finite_vimageI [OF _ inj_str_numbered]) simp
  moreover have "finite (numbered target_dir stm -` insert [] (fst ` set (nodes fs)))"
    by (rule finite_vimageI [OF _ inj_numbered]) simp
  ultimately show ?thesis by (meson finite_UnI finite_subset)
qed

function unique_loop :: "filesys \<Rightarrow> string list \<Rightarrow> path \<Rightarrow> string \<Rightarrow> path \<Rightarrow> nat \<Rightarrow> path" where
  "unique_loop fs existing_targets target_dir stm candidate counter =
     (if str_path candidate \<in> set existing_targets \<or> path_exists fs candidate
      then unique_loop fs existing_targets target_dir stm
             (joinpath target_dir (stm @ ''-'' @ str_nat counter @ ''.jxl'')) (counter + 1)
      else candidate)"
  by pat_completeness auto
termination
proof (relation "measure (\<lambda>(fs, existing_targets, target_dir, stm, candidate, counter).
          (if taken fs existing_targets candidate then 1 else 0)
          + 2 * card {n. counter \<le> n \<and> taken fs existing_targets (numbered target_dir stm n)})")
  show "wf (measure (\<lambda>(fs, existing_targets, target_dir, stm, candidate, counter).
          (if taken fs existing_targets candidate then 1 else 0)
          + 2 * card {n. counter \<le> n \<and> taken fs existing_targets (numbered target_dir stm n)}))"
    by simp
next
  fix fs :: filesys and existing_targets :: "string list" and target_dir :: path
    and stm :: string and candidate :: path and counter :: nat
  assume used: "str_path candidate \<in> set existing_targets \<or> path_exists fs candidate"
  let ?T = "\<lambda>c. {n. c \<le> n \<and> taken fs existing_targets (numbered target_dir stm n)}"
  have fin: "finite (?T counter)"
    by (rule finite_subset [OF _ finite_taken [of fs existing_targets target_dir stm]]) auto
  have split: "?T counter =
      (if taken fs existing_targets (numbered target_dir stm counter) then {counter} else {})
      \<union> ?T (counter + 1)"
    by (auto simp: Suc_le_eq le_less)
  have notin: "counter \<notin> ?T (counter + 1)" by simp
  have fin': "finite (?T (counter + 1))"
    by (rule finite_subset [OF _ fin]) auto
  have "(if taken fs existing_targets (numbered target_dir stm counter) then 1 else 0)
        + 2 * card (?T (counter + 1)) < 1 + 2 * card (?T counter)"
  proof (cases "taken fs existing_targets (numbered target_dir stm counter)")
    case True
    then have "?T counter = insert counter (?T (counter + 1))" using split by simp
    moreover have "card (insert counter (?T (counter + 1))) = Suc (card (?T (counter + 1)))"
      using fin' notin by (rule card_insert_disjoint)
    ultimately have "card (?T counter) = Suc (card (?T (counter + 1)))"
      by (simp only:)
    with True show ?thesis by simp
  next
    case False
    then have "?T counter = ?T (counter + 1)" using split by simp
    with False show ?thesis by simp
  qed
  then show "((fs, existing_targets, target_dir, stm,
        joinpath target_dir (stm @ ''-'' @ str_nat counter @ ''.jxl''), counter + 1),
       (fs, existing_targets, target_dir, stm, candidate, counter))
      \<in> measure (\<lambda>(fs, existing_targets, target_dir, stm, candidate, counter).
          (if taken fs existing_targets candidate then 1 else 0)
          + 2 * card {n. counter \<le> n \<and> taken fs existing_targets (numbered target_dir stm n)})"
    using used by (simp add: taken_def numbered_def)
qed

declare unique_loop.simps [simp del]

text \<open>The directory of the target: \<^verbatim>\<open>output_dir\<close>, or the directory of the input when it is
  \<^verbatim>\<open>None\<close>; in recursive mode the input's directory below \<^verbatim>\<open>initial_dir\<close> is mirrored
  below \<^verbatim>\<open>output_dir\<close>.\<close>

definition target_dir_of :: "tui \<Rightarrow> path \<Rightarrow> path" where
  "target_dir_of s in_path =
     (let target_dir = (case output_dir s of None \<Rightarrow> parent in_path | Some d \<Rightarrow> d)
      in case output_dir s of
           None \<Rightarrow> target_dir
         | Some d \<Rightarrow>
             if recursive s then
               (case relative_to (parent in_path) (initial_dir s) of
                  Some rel \<Rightarrow> d @ rel
                | None \<Rightarrow> target_dir)
             else target_dir)"

definition get_unique_target_path ::
  "tui \<Rightarrow> filesys \<Rightarrow> path \<Rightarrow> string list \<Rightarrow> (error \<times> filesys) + (path \<times> filesys)" where
  "get_unique_target_path s fs in_path existing_targets =
     (let target_dir = target_dir_of s in_path
      in case mkdir_parents fs target_dir of
           Inl failure \<Rightarrow> Inl failure
         | Inr fs' \<Rightarrow>
             Inr (unique_loop fs' existing_targets target_dir (stem in_path)
                    (joinpath target_dir (stem in_path @ ''.jxl'')) 1, fs'))"

subsection \<open>The session controller\<close>

text \<open>
  The first loop of \<^verbatim>\<open>_start_conversion_session\<close>, over \<^verbatim>\<open>sorted(list(self.selected))\<close>: it
  threads the statuses, the file system and \<^verbatim>\<open>existing_targets_in_batch\<close>, and collects
  the tasks. \<^verbatim>\<open>self.files[idx]\<close> raises \<^verbatim>\<open>IndexError\<close> out of range and
  \<^verbatim>\<open>self.statuses[idx]\<close> \<^verbatim>\<open>KeyError\<close> on a missing key; nothing in the method catches
  these or the error of \<^verbatim>\<open>mkdir\<close>.
\<close>

fun build_tasks ::
  "bool \<Rightarrow> nat list \<Rightarrow> tui \<Rightarrow> filesys \<Rightarrow> string list \<Rightarrow> task list
     \<Rightarrow> (error \<times> tui \<times> filesys) + (task list \<times> tui \<times> filesys)" where
  "build_tasks is_sanitize_run [] s fs existing_targets_in_batch tasks = Inr (tasks, s, fs)"
| "build_tasks is_sanitize_run (idx # idxs) s fs existing_targets_in_batch tasks =
     (if length (files s) \<le> idx then Inl (IndexError, s, fs)
      else
        (let input_path = files s ! idx
         in case get_unique_target_path s fs input_path existing_targets_in_batch of
              Inl (err, fs') \<Rightarrow> Inl (err, s, fs')
            | Inr (target, fs') \<Rightarrow>
                (case statuses s idx of
                   None \<Rightarrow> Inl (KeyError, s, fs')
                 | Some r \<Rightarrow>
                     build_tasks is_sanitize_run idxs
                       (s\<lparr>statuses := (statuses s)(idx \<mapsto> r\<lparr>target_path := Some target\<rparr>)\<rparr>)
                       fs'
                       (str_path target # existing_targets_in_batch)
                       (tasks @ [\<lparr>t_idx = idx, t_target_path = target,
                                  t_sanitize = is_sanitize_run\<rparr>]))))"

text \<open>The second loop: each task is put on the queue, its status becomes \<^verbatim>\<open>QUEUED\<close> and its
  index leaves \<^verbatim>\<open>failed_indices\<close>.\<close>

fun enqueue_tasks :: "task list \<Rightarrow> tui \<Rightarrow> (error \<times> tui) + tui" where
  "enqueue_tasks [] s = Inr s"
| "enqueue_tasks (t # ts) s =
     (let s1 = s\<lparr>conversion_queue := conversion_queue s @ [t]\<rparr>; idx = t_idx t
      in case statuses s1 idx of
           None \<Rightarrow> Inl (KeyError, s1)
         | Some r \<Rightarrow>
             enqueue_tasks ts
               (s1\<lparr>statuses := (statuses s1)(idx \<mapsto> r\<lparr>status := QUEUED\<rparr>),
                   failed_indices := failed_indices s1 - {idx}\<rparr>))"

definition start_worker :: "tui \<Rightarrow> tui" where
  "start_worker s =
     (if conversion_thread_alive s then s
      else s\<lparr>stop_thread := False, conversion_thread_alive := True\<rparr>)"

definition start_conversion_session :: "bool \<Rightarrow> tui \<times> env \<Rightarrow> (tui \<times> env) outcome" where
  "start_conversion_session is_sanitize_run se =
     (case se of (s, e) \<Rightarrow>
        if is_converting s then Returned (show_message ''A conversion is already in progress.'' 3 s, e)
        else if selected s = {} then Returned (show_message ''No files selected to convert.'' 3 s, e)
        else if \<not> truthy (cjxl_cmd s) then Returned (show_message ''cjxl command not found in PATH.'' 4 s, e)
        else
          (case (if delete_originals s \<and> \<not> is_sanitize_run then confirmation_dialog_run (keys e)
                 else Some (True, keys e)) of
             None \<Rightarrow> Blocked
           | Some (proceed, ks) \<Rightarrow>
               (let e1 = e\<lparr>keys := ks\<rparr>
                in if \<not> proceed then Returned (show_message ''Conversion cancelled.'' 5 s, e1)
                   else
                     (case build_tasks is_sanitize_run (sorted_list_of_set (selected s)) s
                             (filesystem e1) [] [] of
                        Inl (err, s1, fs') \<Rightarrow> Raised err (s1, e1\<lparr>filesystem := fs'\<rparr>)
                      | Inr (tasks, s1, fs') \<Rightarrow>
                          (let s2 =
                                 (if \<not> is_sanitize_run then
                                    s1\<lparr>is_converting := True, start_time := now e1,
                                       conversions_success := 0, conversions_failed := 0,
                                       total_bytes_before := 0, total_bytes_after := 0\<rparr>
                                  else s1)
                           in case enqueue_tasks tasks s2 of
                                Inl (err, s3) \<Rightarrow> Raised err (s3, e1\<lparr>filesystem := fs'\<rparr>)
                              | Inr s3 \<Rightarrow> Returned (start_worker s3, e1\<lparr>filesystem := fs'\<rparr>))))))"

definition prompt_for_sanitize :: "tui \<times> env \<Rightarrow> (tui \<times> env) outcome" where
  "prompt_for_sanitize se =
     (case se of (s, e) \<Rightarrow>
        if \<not> truthy (imagemagick_cmd s) then
          Returned (show_message ''Some files failed. Install ImageMagick to enable sanitize/retry.'' 3 s, e)
        else
          (case confirmation_dialog_run (keys e) of
             None \<Rightarrow> Blocked
           | Some (yes, ks) \<Rightarrow>
               if yes then
                 start_conversion_session True
                   ((show_message ''Re-queueing failed files for sanitized conversion...'' 5 s)
                      \<lparr>selected := failed_indices s\<rparr>,
                    e\<lparr>keys := ks\<rparr>)
               else Returned (s, e\<lparr>keys := ks\<rparr>)))"

text \<open>The second half of \<^verbatim>\<open>_process_status_queue\<close>: the end of the batch.\<close>

definition finish_batch :: "tui \<Rightarrow> env \<Rightarrow> (bool \<times> tui) outcome" where
  "finish_batch s e =
     (if is_converting s \<and> conversion_queue s = [] then
        (let total_processed = conversions_success s + conversions_failed s
         in if card (selected s) \<le> total_processed then
              (let elapsed = now e - start_time s;
                   s1 = show_message
                          (''Finished '' @ str_nat total_processed @ '' files in ''
                             @ format_f 2 elapsed @ ''s.'') 2
                          (s\<lparr>is_converting := False\<rparr>);
                   total_savings = total_bytes_before s1 - total_bytes_after s1
               in case format_bytes total_savings of
                    Inl err \<Rightarrow> Raised err (False, s1)
                  | Inr savings_str \<Rightarrow>
                      (let summary =
                             (if 0 < total_bytes_before s1 then
                                ''Finished: '' @ str_nat total_processed @ '' files | Total Saved: ''
                                  @ savings_str @ '' (''
                                  @ format_f 1 (of_int total_savings / of_int (total_bytes_before s1) * 100)
                                  @ ''%) | Time: '' @ format_f 2 elapsed @ ''s''
                              else
                                ''Finished: '' @ str_nat total_processed @ '' files | Time: ''
                                  @ format_f 2 elapsed @ ''s'')
                       in Returned (True, s1\<lparr>last_conversion_summary := summary\<rparr>)))
            else Returned (False, s))
      else Returned (False, s))"

definition process_status_queue :: "tui \<times> env \<Rightarrow> (tui \<times> env) outcome" where
  "process_status_queue se =
     (case se of (s, e) \<Rightarrow>
        (case drain (status_queue s) s of
           Blocked \<Rightarrow> Blocked
         | Raised err s1 \<Rightarrow> Raised err (s1, e)
         | Returned s1 \<Rightarrow>
             (case finish_batch s1 e of
                Blocked \<Rightarrow> Blocked
              | Raised err (just_finished, s2) \<Rightarrow> Raised err (s2, e)
              | Returned (just_finished, s2) \<Rightarrow>
                  if just_finished \<and> failed_indices s2 \<noteq> {} then prompt_for_sanitize (s2, e)
                  else Returned (s2, e))))"

subsection \<open>The worker\<close>

definition error_name :: "error \<Rightarrow> string" where
  "error_name err =
     (case err of
        KeyError \<Rightarrow> ''KeyError'' | IndexError \<Rightarrow> ''IndexError'' | TypeError \<Rightarrow> ''TypeError''
      | OSError \<Rightarrow> ''OSError'' | FileNotFoundError \<Rightarrow> ''FileNotFoundError''
      | FileExistsError \<Rightarrow> ''FileExistsError'' | NotADirectoryError \<Rightarrow> ''NotADirectoryError''
      | PermissionError \<Rightarrow> ''PermissionError'' | ValueError \<Rightarrow> ''ValueError'')"

text \<open>What the \<^verbatim>\<open>if use_sanitize\<close> block leaves: the \<^verbatim>\<open>continue\<close> of a failed sanitize step,
  or the file to hand to the encoder.\<close>

datatype sanitized = Skip | Source path

definition temp_png_of :: "env \<Rightarrow> path \<Rightarrow> path" where
  "temp_png_of e input_path = joinpath (tempdir e) (''sanitized_'' @ path_name input_path @ ''.png'')"

definition sanitize_failed :: "completed \<Rightarrow> filesys \<Rightarrow> path \<Rightarrow> bool" where
  "sanitize_failed result fs temp_png =
     (returncode result \<noteq> 0 \<or> \<not> path_exists fs temp_png \<or> stat_size fs temp_png = Inr 0)"

definition sanitize_input ::
  "nat \<Rightarrow> path \<Rightarrow> tui \<times> env \<Rightarrow> (error \<times> tui \<times> env) + (sanitized \<times> tui \<times> env)" where
  "sanitize_input idx input_path se =
     (case se of (s, e) \<Rightarrow>
        (let s1 = update_status idx SANITIZING None None None s
         in case imagemagick_cmd s1 of
              None \<Rightarrow> Inr (Skip, update_status idx FAILED (Some ''ImageMagick not found'') None None s1, e)
            | Some magick \<Rightarrow>
                if magick = [] then
                  Inr (Skip, update_status idx FAILED (Some ''ImageMagick not found'') None None s1, e)
                else
                  (let temp_png = temp_png_of e input_path;
                       sanitize_cmd = [magick, str_path input_path, ''-strip'', str_path temp_png]
                   in case subprocess_run sanitize_cmd e of
                        (Inl err, e1) \<Rightarrow> Inl (err, s1, e1)
                      | (Inr result, e1) \<Rightarrow>
                          if sanitize_failed result (filesystem e1) temp_png then
                            Inr (Skip,
                                 update_status idx FAILED (Some ''Sanitize failed'') None None s1,
                                 e1\<lparr>filesystem := unlink (filesystem e1) temp_png\<rparr>)
                          else Inr (Source temp_png, s1, e1))))"

text \<open>The encoder invocations: the lossless transcode of a JPEG that is not a sanitize
  retry, with the quality encode after it when it exits non-zero, and the quality encode
  alone otherwise.\<close>

definition is_jpeg :: "path \<Rightarrow> bool" where
  "is_jpeg input_path = (lower (path_suffix input_path) \<in> {''.jpg'', ''.jpeg''})"

definition encode ::
  "bool \<Rightarrow> path \<Rightarrow> path \<Rightarrow> path \<Rightarrow> tui \<times> env \<Rightarrow> (error \<times> tui \<times> env) + (completed \<times> tui \<times> env)" where
  "encode use_sanitize input_path source_file_for_cjxl target se =
     (case se of (s, e) \<Rightarrow>
        (case cjxl_cmd s of
           None \<Rightarrow> Inl (TypeError, s, e)
         | Some cjxl \<Rightarrow>
             (let cmd = [cjxl, str_path source_file_for_cjxl, str_path target,
                         ''--effort'', str_int (effort s)]
              in if is_jpeg input_path \<and> \<not> use_sanitize then
                   (let lossless_cmd = cmd @ [''--lossless_jpeg'', ''1'', ''--quiet'']
                    in case subprocess_run lossless_cmd e of
                         (Inl err, e1) \<Rightarrow> Inl (err, s, e1)
                       | (Inr result, e1) \<Rightarrow>
                           if returncode result \<noteq> 0 then
                             (let quality_cmd = cmd @ [''-q'', str_int (quality s), ''--quiet'']
                              in case subprocess_run quality_cmd e1 of
                                   (Inl err, e2) \<Rightarrow> Inl (err, s, e2)
                                 | (Inr result2, e2) \<Rightarrow> Inr (result2, s, e2))
                           else Inr (result, s, e1))
                 else
                   (let quality_cmd =
                          cmd @ [''--lossless_jpeg'', ''0'', ''-q'', str_int (quality s), ''--quiet'']
                    in case subprocess_run quality_cmd e of
                         (Inl err, e1) \<Rightarrow> Inl (err, s, e1)
                       | (Inr result, e1) \<Rightarrow> Inr (result, s, e1)))))"

text \<open>\<^verbatim>\<open>result.stderr.strip().splitlines()[-1] if result.stderr else "cjxl error"\<close>: the
  index \<open>- 1\<close> raises \<^verbatim>\<open>IndexError\<close> on an empty list.\<close>

definition error_msg :: "string \<Rightarrow> error + string" where
  "error_msg err_text =
     (if err_text \<noteq> [] then
        (case splitlines (strip err_text) of
           [] \<Rightarrow> Inl IndexError
         | l # ls \<Rightarrow> Inr (last (l # ls)))
      else Inr ''cjxl error'')"

text \<open>After the encoder: the temporary file of a sanitize task is removed, then the result
  is reported. \<^verbatim>\<open>shutil.copystat\<close> and \<^verbatim>\<open>stat\<close> raise when the input is gone.\<close>

definition report ::
  "nat \<Rightarrow> bool \<Rightarrow> path \<Rightarrow> path \<Rightarrow> path \<Rightarrow> completed \<Rightarrow> tui \<times> env \<Rightarrow> (error \<times> tui \<times> env) + (tui \<times> env)" where
  "report idx use_sanitize input_path source_file_for_cjxl target result se =
     (case se of (s, e) \<Rightarrow>
        (let e1 = (if use_sanitize then e\<lparr>filesystem := unlink (filesystem e) source_file_for_cjxl\<rparr>
                   else e)
         in if returncode result = 0 \<and> path_exists (filesystem e1) target then
              (case stat_size (filesystem e1) input_path of
                 Inl err \<Rightarrow> Inl (err, s, e1)
               | Inr before \<Rightarrow>
                   (case stat_size (filesystem e1) target of
                      Inl err \<Rightarrow> Inl (err, s, e1)
                    | Inr after \<Rightarrow>
                        (let s1 = update_status idx SUCCESS None (Some before) (Some after) s
                         in if delete_originals s1
                            then Inr (s1, e1\<lparr>filesystem := unlink (filesystem e1) input_path\<rparr>)
                            else Inr (s1, e1))))
            else
              (case error_msg (stderr result) of
                 Inl err \<Rightarrow> Inl (err, s, e1)
               | Inr m \<Rightarrow>
                   Inr (update_status idx FAILED (Some m) None None s,
                        e1\<lparr>filesystem := unlink (filesystem e1) target\<rparr>))))"

text \<open>The body of the \<^verbatim>\<open>try\<close> of \<^verbatim>\<open>conversion_worker\<close> for a task pulled from the queue.\<close>

definition process_task :: "task \<Rightarrow> tui \<times> env \<Rightarrow> (error \<times> tui \<times> env) + (tui \<times> env)" where
  "process_task tsk se =
     (case se of (s, e) \<Rightarrow>
        (let idx = t_idx tsk; target = t_target_path tsk; use_sanitize = t_sanitize tsk
         in if length (files s) \<le> idx then Inl (IndexError, s, e)
            else
              (let input_path = files s ! idx
               in case (if use_sanitize then sanitize_input idx input_path (s, e)
                        else Inr (Source input_path, s, e)) of
                    Inl failure \<Rightarrow> Inl failure
                  | Inr (Skip, s1, e1) \<Rightarrow> Inr (s1, e1)
                  | Inr (Source source_file_for_cjxl, s1, e1) \<Rightarrow>
                      (case encode use_sanitize input_path source_file_for_cjxl target
                              (update_status idx CONVERTING None None None s1, e1) of
                         Inl failure \<Rightarrow> Inl failure
                       | Inr (result, s2, e2) \<Rightarrow>
                           report idx use_sanitize input_path source_file_for_cjxl target result
                             (s2, e2)))))"

text \<open>
  One iteration of \<^verbatim>\<open>while not self.stop_thread.is_set()\<close>: the thread ends when the event
  is set; an empty queue is the \<^verbatim>\<open>queue.Empty\<close> of the timed \<^verbatim>\<open>get\<close>; any other exception
  is reported as a failure of the task. The iterations of the worker interleave with
  the ticks of the main loop at the grain of whole iterations.
\<close>

definition conversion_worker_iteration :: "tui \<times> env \<Rightarrow> tui \<times> env" where
  "conversion_worker_iteration se =
     (case se of (s, e) \<Rightarrow>
        if \<not> conversion_thread_alive s then (s, e)
        else if stop_thread s then (s\<lparr>conversion_thread_alive := False\<rparr>, e)
        else
          (case conversion_queue s of
             [] \<Rightarrow> (s, e)
           | tsk # rest \<Rightarrow>
               (case process_task tsk (s\<lparr>conversion_queue := rest\<rparr>, e) of
                  Inr done \<Rightarrow> done
                | Inl (err, s1, e1) \<Rightarrow>
                    (update_status (t_idx tsk) FAILED (Some (''Worker crash: '' @ error_name err))
                       None None s1,
                     e1))))"

fun conversion_worker :: "nat \<Rightarrow> tui \<times> env \<Rightarrow> tui \<times> env" where
  "conversion_worker 0 se = se"
| "conversion_worker (Suc n) se = conversion_worker n (conversion_worker_iteration se)"

subsection \<open>Keyboard input and the main loop\<close>

definition set_quality :: "tui \<times> env \<Rightarrow> (tui \<times> env) outcome" where
  "set_quality se =
     (case se of (s, e) \<Rightarrow>
        (case input_dialog_run (str_int (quality s)) (keys e) of
           None \<Rightarrow> Blocked
         | Some (new_val, ks) \<Rightarrow>
             (let e1 = e\<lparr>keys := ks\<rparr>
              in case new_val of
                   None \<Rightarrow> Returned (s, e1)
                 | Some v \<Rightarrow>
                     if v \<noteq> [] \<and> isdigit v then
                       (case py_int v of
                          Inl err \<Rightarrow> Raised err (s, e1)
                        | Inr n \<Rightarrow>
                            if 1 \<le> n \<and> n \<le> 100
                            then Returned (show_message (''Quality set to '' @ str_int n) 5 (s\<lparr>quality := n\<rparr>), e1)
                            else Returned (show_message ''Quality must be between 1 and 100.'' 4 s, e1))
                     else Returned (show_message ''Quality must be between 1 and 100.'' 4 s, e1))))"

definition set_effort :: "tui \<times> env \<Rightarrow> (tui \<times> env) outcome" where
  "set_effort se =
     (case se of (s, e) \<Rightarrow>
        (case input_dialog_run (str_int (effort s)) (keys e) of
           None \<Rightarrow> Blocked
         | Some (new_val, ks) \<Rightarrow>
             (let e1 = e\<lparr>keys := ks\<rparr>
              in case new_val of
                   None \<Rightarrow> Returned (s, e1)
                 | Some v \<Rightarrow>
                     if v \<noteq> [] \<and> isdigit v then
                       (case py_int v of
                          Inl err \<Rightarrow> Raised err (s, e1)
                        | Inr n \<Rightarrow>
                            if 1 \<le> n \<and> n \<le> 9
                            then Returned (show_message (''Effort set to '' @ str_int n) 5 (s\<lparr>effort := n\<rparr>), e1)
                            else Returned (show_message ''Effort must be between 1 and 9.'' 4 s, e1))
                     else Returned (show_message ''Effort must be between 1 and 9.'' 4 s, e1))))"

definition set_output_dir :: "tui \<times> env \<Rightarrow> (tui \<times> env) outcome" where
  "set_output_dir se =
     (case se of (s, e) \<Rightarrow>
        (let current = (case output_dir s of None \<Rightarrow> [] | Some d \<Rightarrow> str_path d)
         in case input_dialog_run current (keys e) of
              None \<Rightarrow> Blocked
            | Some (new_val, ks) \<Rightarrow>
                (let e1 = e\<lparr>keys := ks\<rparr>
                 in case new_val of
                      None \<Rightarrow> Returned (s, e1)
                    | Some v \<Rightarrow>
                        if strip v = [] then
                          Returned (show_message ''Output set to same directory as source files.'' 5
                                      (s\<lparr>output_dir := None\<rparr>), e1)
                        else
                          Returned (show_message (''Output directory set to '' @ str_path (resolve e1 v)) 5
                                      (s\<lparr>output_dir := Some (resolve e1 v)\<rparr>), e1))))"

text \<open>\<^verbatim>\<open>xs[i]\<close>: an index below zero counts from the end of the list.\<close>

definition py_nth :: "'a list \<Rightarrow> int \<Rightarrow> error + 'a" where
  "py_nth xs i =
     (if 0 \<le> i \<and> i < int (length xs) then Inr (xs ! nat i)
      else if i < 0 \<and> - int (length xs) \<le> i then Inr (xs ! nat (int (length xs) + i))
      else Inl IndexError)"

definition char_key_of :: "int \<Rightarrow> char option" where
  "char_key_of key = (if 32 \<le> key \<and> key \<le> 126 then Some (chr key) else None)"

definition adjust_scroll :: "int \<Rightarrow> tui \<Rightarrow> tui" where
  "adjust_scroll max_rows s =
     (let s1 = (if current_row s < scroll_offset s then s\<lparr>scroll_offset := current_row s\<rparr> else s)
      in if scroll_offset s1 + max_rows \<le> current_row s1
         then s1\<lparr>scroll_offset := current_row s1 - max_rows + 1\<rparr>
         else s1)"

definition handle_input :: "int \<Rightarrow> (nat \<times> path) list \<Rightarrow> tui \<times> env \<Rightarrow> (tui \<times> env) outcome" where
  "handle_input key visible_files se =
     (case se of (s0, e) \<Rightarrow>
        (let s = s0\<lparr>status_message := []\<rparr>;
             max_rows = fst (maxyx e) - 5;
             char_key = char_key_of key;
             n = int (length visible_files)
         in case
              (if key \<in> {KEY_UP, ord (CHR ''k'')} \<and> 0 < current_row s then
                 Returned (s\<lparr>current_row := current_row s - 1\<rparr>, e)
               else if key \<in> {KEY_DOWN, ord (CHR ''j'')} \<and> current_row s < n - 1 then
                 Returned (s\<lparr>current_row := current_row s + 1\<rparr>, e)
               else if key = KEY_PPAGE then
                 Returned (s\<lparr>current_row := max 0 (current_row s - max_rows)\<rparr>, e)
               else if key = KEY_NPAGE then
                 Returned (s\<lparr>current_row := min (n - 1) (current_row s + max_rows)\<rparr>, e)
               else if char_key = Some (CHR ''g'') \<and> 0 < current_row s then
                 Returned (s\<lparr>current_row := 0, scroll_offset := 0\<rparr>, e)
               else if char_key = Some (CHR ''G'') then
                 Returned (s\<lparr>current_row := n - 1\<rparr>, e)
               else if key = ord (CHR '' '') then
                 (if current_row s < n then
                    (case py_nth visible_files (current_row s) of
                       Inl err \<Rightarrow> Raised err (s, e)
                     | Inr (original_idx, file_path) \<Rightarrow>
                         if original_idx \<in> selected s
                         then Returned (s\<lparr>selected := selected s - {original_idx}\<rparr>, e)
                         else Returned (s\<lparr>selected := insert original_idx (selected s)\<rparr>, e))
                  else Returned (s, e))
               else if char_key = Some (CHR ''a'') then
                 Returned (s\<lparr>selected := fst ` set visible_files\<rparr>, e)
               else if char_key = Some (CHR ''A'') then
                 Returned (s\<lparr>selected := {}\<rparr>, e)
               else if key \<in> {KEY_ENTER, 10} then start_conversion_session False (s, e)
               else if key = KEY_F5 then Returned (load_files s e, e)
               else if char_key \<in> {Some (CHR ''F''), Some (CHR ''f'')} \<and> failed_indices s \<noteq> {} then
                 Returned (s\<lparr>show_only_failed := \<not> show_only_failed s,
                             current_row := 0, scroll_offset := 0\<rparr>, e)
               else if char_key \<in> {Some (CHR ''B''), Some (CHR ''b'')} then
                 Returned (show_message
                             (''Debug logging '' @ (if debug_enabled s then ''DISABLED'' else ''ENABLED'')) 5
                             (s\<lparr>debug_enabled := \<not> debug_enabled s\<rparr>), e)
               else if char_key \<in> {Some (CHR ''Q''), Some (CHR ''q'')} then set_quality (s, e)
               else if char_key \<in> {Some (CHR ''E''), Some (CHR ''e'')} then set_effort (s, e)
               else if char_key \<in> {Some (CHR ''R''), Some (CHR ''r'')} then
                 Returned (load_files (s\<lparr>recursive := \<not> recursive s\<rparr>) e, e)
               else if char_key \<in> {Some (CHR ''O''), Some (CHR ''o'')} then set_output_dir (s, e)
               else if char_key \<in> {Some (CHR ''D''), Some (CHR ''d'')} then
                 Returned (s\<lparr>delete_originals := \<not> delete_originals s\<rparr>, e)
               else Returned (s, e)) of
              Returned (s1, e1) \<Rightarrow> Returned (adjust_scroll max_rows s1, e1)
            | Raised err se1 \<Rightarrow> Raised err se1
            | Blocked \<Rightarrow> Blocked))"

text \<open>
  One key of a tick of \<^verbatim>\<open>run\<close>: ESC or q leaves the loop by \<^verbatim>\<open>return\<close> when no conversion
  runs, or when the user confirms; every other key goes to \<^verbatim>\<open>handle_input\<close>. The flag of
  the result says that \<^verbatim>\<open>run\<close> returned.
\<close>

definition process_key :: "int \<Rightarrow> tui \<times> env \<Rightarrow> (bool \<times> tui \<times> env) outcome" where
  "process_key key se =
     (case se of (s, e) \<Rightarrow>
        if key \<in> {27, ord (CHR ''q'')} \<and> \<not> is_converting s then Returned (True, s, e)
        else
          (case (if key \<in> {27, ord (CHR ''q'')} \<and> is_converting s
                 then confirmation_dialog_run (keys e) else Some (False, keys e)) of
             None \<Rightarrow> Blocked
           | Some (quit, ks) \<Rightarrow>
               if quit then Returned (True, s, e\<lparr>keys := ks\<rparr>)
               else
                 (case get_visible_files s of
                    Inl err \<Rightarrow> Raised err (False, s, e\<lparr>keys := ks\<rparr>)
                  | Inr visible_files_before_input \<Rightarrow>
                      (case handle_input key visible_files_before_input (s, e\<lparr>keys := ks\<rparr>) of
                         Returned se1 \<Rightarrow> Returned (False, se1)
                       | Raised err se1 \<Rightarrow> Raised err (False, se1)
                       | Blocked \<Rightarrow> Blocked))))"

fun process_keys :: "int list \<Rightarrow> tui \<times> env \<Rightarrow> (bool \<times> tui \<times> env) outcome" where
  "process_keys [] se = Returned (False, se)"
| "process_keys (key # rest) se =
     (case process_key key se of
        Returned (quit, se1) \<Rightarrow> if quit then Returned (True, se1) else process_keys rest se1
      | Raised err r \<Rightarrow> Raised err r
      | Blocked \<Rightarrow> Blocked)"

definition is_nav_key :: "int \<Rightarrow> bool" where
  "is_nav_key key =
     (key \<in> {KEY_UP, ord (CHR ''k''), KEY_DOWN, ord (CHR ''j''), KEY_PPAGE, KEY_NPAGE,
              ord (CHR ''g''), ord (CHR ''G'')})"

definition clamp_row :: "tui \<Rightarrow> (error \<times> tui) + tui" where
  "clamp_row s =
     (case get_visible_files s of
        Inl err \<Rightarrow> Inl (err, s)
      | Inr visible_files \<Rightarrow>
          if int (length visible_files) \<le> current_row s
          then Inr (s\<lparr>current_row := max 0 (int (length visible_files) - 1)\<rparr>)
          else Inr s)"

text \<open>
  One iteration of the \<^verbatim>\<open>while True\<close> of \<^verbatim>\<open>run\<close>. The keys waiting are read up to the
  first \<open>- 1\<close>; the keys that are not navigation keys are handled in order, then the last
  navigation key; then the status queue is processed. Before the tick, the worker thread
  makes the iterations the schedule gives it.
\<close>

definition tick :: "tui \<times> env \<Rightarrow> (bool \<times> tui \<times> env) outcome" where
  "tick se0 =
     (case (case se0 of (s, e) \<Rightarrow>
              (case worker_schedule e of
                 [] \<Rightarrow> (s, e)
               | k # rest \<Rightarrow> conversion_worker k (s, e\<lparr>worker_schedule := rest\<rparr>))) of
        (s, e) \<Rightarrow>
          (let pressed = takeWhile (\<lambda>k. k \<noteq> - 1) (keys e);
               e1 = e\<lparr>keys := drop 1 (dropWhile (\<lambda>k. k \<noteq> - 1) (keys e))\<rparr>;
               s1 = (if pressed \<noteq> [] then s\<lparr>last_conversion_summary := []\<rparr> else s);
               non_nav_keys = filter (\<lambda>k. \<not> is_nav_key k) pressed;
               nav_keys = filter is_nav_key pressed
           in case process_keys (non_nav_keys @ (if nav_keys = [] then [] else [last nav_keys]))
                     (s1, e1) of
                Blocked \<Rightarrow> Blocked
              | Raised err r \<Rightarrow> Raised err r
              | Returned (quit, s2, e2) \<Rightarrow>
                  if quit then Returned (True, s2, e2)
                  else
                    (case process_status_queue (s2, e2) of
                       Blocked \<Rightarrow> Blocked
                     | Raised err se3 \<Rightarrow> Raised err (False, se3)
                     | Returned (s3, e3) \<Rightarrow>
                         (case clamp_row s3 of
                            Inl (err, s4) \<Rightarrow> Raised err (False, s4, e3)
                          | Inr s4 \<Rightarrow> Returned (False, s4, e3)))))"

text \<open>
  \<^verbatim>\<open>run\<close>, for a number of ticks. The loop is left only by the \<^verbatim>\<open>return\<close> statements inside
  it (or by an exception): it has no \<^verbatim>\<open>break\<close>, so the two statements after it in the
  source, which set the event and join the thread, are never reached.
\<close>

fun run_loop :: "nat \<Rightarrow> tui \<times> env \<Rightarrow> (tui \<times> env) outcome" where
  "run_loop 0 se = Blocked"
| "run_loop (Suc n) se =
     (case tick se of
        Returned (quit, se1) \<Rightarrow> if quit then Returned se1 else run_loop n se1
      | Raised err (quit, se1) \<Rightarrow> Raised err se1
      | Blocked \<Rightarrow> Blocked)"

definition run :: "nat \<Rightarrow> tui \<times> env \<Rightarrow> (tui \<times> env) outcome" where
  "run ticks se =
     (case se of (s, e) \<Rightarrow>
        run_loop ticks
          (if \<not> truthy (cjxl_cmd s)
           then (show_message ''FATAL: cjxl not found in PATH. Install libjxl-tools.'' 4 s, e)
           else (s, e)))"

text \<open>The loop after a number of iterations, when it has not been left before.\<close>

fun ticks :: "nat \<Rightarrow> tui \<times> env \<Rightarrow> (bool \<times> tui \<times> env) outcome" where
  "ticks 0 se = Returned (False, se)"
| "ticks (Suc n) se =
     (case ticks n se of
        Returned (quit, se1) \<Rightarrow> if quit then Returned (True, se1) else tick se1
      | Raised err r \<Rightarrow> Raised err r
      | Blocked \<Rightarrow> Blocked)"

subsection \<open>A session to evaluate on\<close>

text \<open>
  A directory \<^verbatim>\<open>/pics\<close> with \<^verbatim>\<open>a.jpg\<close> (500 KiB) and \<^verbatim>\<open>a.png\<close>, the output directory
  \<^verbatim>\<open>/out\<close> missing, an 80 by 24 terminal, and external commands that fail with exit code 1
  and nothing on standard error.
\<close>

definition example_fs :: filesys where
  "example_fs =
     \<lparr>nodes = [([''pics''], Node True 0),
               ([''pics'', ''a.jpg''], Node False 512000),
               ([''pics'', ''a.png''], Node False 1000),
               ([''tmp''], Node True 0)],
      mkdir_denied = []\<rparr>"

definition example_env :: env where
  "example_env =
     \<lparr>filesystem = example_fs, keys = [], now = 0, maxyx = (24, 80), tempdir = [''tmp''],
      run_process = (\<lambda>cmd fs. (Inr (Completed 1 []), fs)),
      invocations = [],
      found_files = (\<lambda>r. Inr [[''pics'', ''a.jpg''], [''pics'', ''a.png'']]),
      resolve = (\<lambda>n. [n]),
      worker_schedule = []\<rparr>"

definition example_tui :: tui where
  "example_tui = init [''pics''] [] (Some ''/usr/bin/cjxl'') (Some ''/usr/bin/magick'') example_env"

lemma example_tui_eq:
  "example_tui =
     \<lparr>initial_dir = [''pics''], files = [[''pics'', ''a.jpg''], [''pics'', ''a.png'']],
      selected = {}, statuses = (\<lambda>i. if i < Suc (Suc 0) then Some pending_record else None),
      failed_indices = {}, current_row = 0, scroll_offset = 0, status_message = [],
      status_message_color = 5, quality = 90, effort = 7, recursive = False,
      delete_originals = False, show_only_failed = False, debug_enabled = False,
      output_dir = Some [''converted''], conversion_queue = [], status_queue = [],
      conversion_thread_alive = False, is_converting = False, stop_thread = False,
      total_bytes_before = 0, total_bytes_after = 0, conversions_success = 0,
      conversions_failed = 0, start_time = 0, last_conversion_summary = [],
      cjxl_cmd = Some ''/usr/bin/cjxl'', imagemagick_cmd = Some ''/usr/bin/magick''\<rparr>"
  by (simp add: example_tui_def init_def load_files_def example_env_def joinpath_def)



text \<open>
  A run of the first session: the user presses \<^verbatim>\<open>a\<close> and Enter, the worker then handles
  both tasks, and the user answers \<^verbatim>\<open>y\<close> to the prompt that follows. The encoder fails on
  \<^verbatim>\<open>a.jpg\<close> (exit code 1, nothing on standard error) and converts \<^verbatim>\<open>a.png\<close> to 300
  bytes.
\<close>

definition batch_env :: env where
  "batch_env =
     example_env
       \<lparr>keys := [97, 10, - 1, - 1, 121],
        worker_schedule := [0, 2],
        run_process :=
          (\<lambda>cmd fs.
             if cmd ! 1 = ''/pics/a.png''
             then (Inr (Completed 0 []),
                   fs\<lparr>nodes := ([''converted'', ''a-1.jxl''], Node False 300) # nodes fs\<rparr>)
             else (Inr (Completed 1 []), fs))\<rparr>"

text \<open>The states this run goes through: after the first tick both tasks are queued; the
  worker then handles them; the second tick ends the batch and, on the answer \<^verbatim>\<open>y\<close>,
  queues the failed file again, for a sanitized conversion.\<close>

definition queued_tui :: tui where
  "queued_tui =
     example_tui
       \<lparr>selected := {0, 1},
        statuses := (statuses example_tui)
          (0 \<mapsto> pending_record\<lparr>status := QUEUED, target_path := Some [''converted'', ''a.jxl'']\<rparr>,
           1 \<mapsto> pending_record\<lparr>status := QUEUED, target_path := Some [''converted'', ''a-1.jxl'']\<rparr>),
        conversion_queue :=
          [\<lparr>t_idx = 0, t_target_path = [''converted'', ''a.jxl''], t_sanitize = False\<rparr>,
           \<lparr>t_idx = 1, t_target_path = [''converted'', ''a-1.jxl''], t_sanitize = False\<rparr>],
        conversion_thread_alive := True,
        is_converting := True\<rparr>"

definition queued_env :: env where
  "queued_env =
     batch_env
       \<lparr>filesystem := example_fs\<lparr>nodes := ([''converted''], Node True 0) # nodes example_fs\<rparr>,
        keys := [- 1, 121],
        worker_schedule := [2]\<rparr>"

definition worked_tui :: tui where
  "worked_tui =
     queued_tui
       \<lparr>conversion_queue := [],
        status_queue :=
          [\<lparr>u_idx = 0, u_status = CONVERTING, u_message = None,
            u_size_before = None, u_size_after = None\<rparr>,
           \<lparr>u_idx = 0, u_status = FAILED, u_message = Some ''cjxl error'',
            u_size_before = None, u_size_after = None\<rparr>,
           \<lparr>u_idx = 1, u_status = CONVERTING, u_message = None,
            u_size_before = None, u_size_after = None\<rparr>,
           \<lparr>u_idx = 1, u_status = SUCCESS, u_message = None,
            u_size_before = Some 1000, u_size_after = Some 300\<rparr>]\<rparr>"

definition worked_env :: env where
  "worked_env =
     queued_env
       \<lparr>filesystem :=
          example_fs\<lparr>nodes := ([''converted'', ''a-1.jxl''], Node False 300)
                                # ([''converted''], Node True 0) # nodes example_fs\<rparr>,
        invocations :=
          [[''/usr/bin/cjxl'', ''/pics/a.jpg'', ''/converted/a.jxl'',
            ''--effort'', ''7'', ''--lossless_jpeg'', ''1'', ''--quiet''],
           [''/usr/bin/cjxl'', ''/pics/a.jpg'', ''/converted/a.jxl'',
            ''--effort'', ''7'', ''-q'', ''90'', ''--quiet''],
           [''/usr/bin/cjxl'', ''/pics/a.png'', ''/converted/a-1.jxl'',
            ''--effort'', ''7'', ''--lossless_jpeg'', ''0'', ''-q'', ''90'', ''--quiet'']],
        worker_schedule := []\<rparr>"

definition retry_tui :: tui where
  "retry_tui =
     worked_tui
       \<lparr>selected := {0},
        statuses := (statuses example_tui)
          (1 \<mapsto> \<lparr>status = SUCCESS, message = [], info_str = ''700.0B saved (70.0%)'',
                   target_path = Some [''converted'', ''a-1.jxl''],
                   size_before = Some 1000, size_after = Some 300\<rparr>,
           0 \<mapsto> \<lparr>status = QUEUED, message = ''cjxl error'', info_str = ''cjxl error'',
                   target_path = Some [''converted'', ''a.jxl''],
                   size_before = None, size_after = None\<rparr>),
        failed_indices := {},
        status_message := ''Re-queueing failed files for sanitized conversion...'',
        status_message_color := 5,
        conversion_queue :=
          [\<lparr>t_idx = 0, t_target_path = [''converted'', ''a.jxl''], t_sanitize = True\<rparr>],
        status_queue := [],
        is_converting := False,
        total_bytes_before := 1000, total_bytes_after := 300,
        conversions_success := 1, conversions_failed := 1,
        last_conversion_summary := ''Finished: 2 files | Total Saved: 700.0B (70.0%) | Time: 0.00s''\<rparr>"

definition retry_env :: env where
  "retry_env = worked_env\<lparr>keys := []\<rparr>"

text \<open>
  The example session with an encoder that writes one newline to its standard error and
  exits with 1.
\<close>

definition newline_env :: env where
  "newline_env =
     example_env\<lparr>run_process := (\<lambda>cmd fs. (Inr (Completed 1 [CHR 0x0A]), fs))\<rparr>"

text \<open>
  The example session with a sanitizer that writes the temporary file
  \<^verbatim>\<open>/tmp/sanitized_a.jpg.png\<close> and exits with 0, and an encoder that cannot be started;
  and the state in which the worker is about to take a sanitize retry of \<^verbatim>\<open>a.jpg\<close>.
\<close>

definition crash_env :: env where
  "crash_env =
     example_env
       \<lparr>run_process :=
          (\<lambda>cmd fs.
             if hd cmd = ''/usr/bin/magick''
             then (Inr (Completed 0 []),
                   fs\<lparr>nodes := ([''tmp'', ''sanitized_a.jpg.png''], Node False 2000) # nodes fs\<rparr>)
             else (Inl FileNotFoundError, fs))\<rparr>"

definition sanitize_tui :: tui where
  "sanitize_tui =
     example_tui
       \<lparr>conversion_thread_alive := True,
        conversion_queue :=
          [\<lparr>t_idx = 0, t_target_path = [''converted'', ''a.jxl''], t_sanitize = True\<rparr>]\<rparr>"

section \<open>Properties\<close>

subsection \<open>Evaluation\<close>

lemma floor_numeral_div: "\<lfloor>numeral a / numeral b :: rat\<rfloor> = numeral a div numeral b"
  using floor_divide_of_int_eq [of "numeral a" "numeral b", where ?'a = rat] by simp

text \<open>The loops unfold on concrete arguments only: each rule asks for the value of the
  loop's condition.\<close>

lemma str_nat_small: "n < 10 \<Longrightarrow> str_nat n = [digit_char n]"
  by (subst str_nat.simps) simp

lemma str_nat_big: "10 \<le> n \<Longrightarrow> str_nat n = str_nat (n div 10) @ [digit_char (n mod 10)]"
  by (subst str_nat.simps) simp

lemma format_bytes_loop_small: "sz < 1024 \<Longrightarrow> format_bytes_loop sz n = (sz, n)"
  by (subst format_bytes_loop.simps) simp

lemma format_bytes_loop_last: "length power_labels \<le> n \<Longrightarrow> format_bytes_loop sz n = (sz, n)"
  by (subst format_bytes_loop.simps) simp

lemma format_bytes_loop_step:
  "1024 \<le> sz \<Longrightarrow> n < length power_labels \<Longrightarrow>
   format_bytes_loop sz n = format_bytes_loop (sz / 1024) (n + 1)"
  by (subst format_bytes_loop.simps) simp

lemma unique_loop_step:
  "str_path cand \<in> set ex \<or> path_exists fs cand \<Longrightarrow>
   unique_loop fs ex d stm cand c
     = unique_loop fs ex d stm (joinpath d (stm @ ''-'' @ str_nat c @ ''.jxl'')) (c + 1)"
  by (subst unique_loop.simps) simp

lemma unique_loop_stop:
  "str_path cand \<notin> set ex \<Longrightarrow> \<not> path_exists fs cand \<Longrightarrow> unique_loop fs ex d stm cand c = cand"
  by (subst unique_loop.simps) simp

lemmas format_eval =
  format_bytes_def format_f_def round_half_even_def Let_def floor_numeral_div
  power_labels_def digit_char_def zero_pad_def str_nat_small str_nat_big
  format_bytes_loop_small format_bytes_loop_last format_bytes_loop_step

subsection \<open>The units of \<^verbatim>\<open>_format_bytes\<close>\<close>









subsection \<open>The text of a successful conversion\<close>






subsection \<open>The path resolver and the batch build\<close>

lemma unique_loop_free:
  "\<not> taken fs ex (unique_loop fs ex d stm cand c)"
proof (induction fs ex d stm cand c rule: unique_loop.induct)
  case (1 fs ex d stm cand c)
  show ?case
  proof (cases "taken fs ex cand")
    case True
    then show ?thesis
      using "1.IH" by (subst unique_loop.simps) (simp add: taken_def)
  next
    case False
    then show ?thesis by (subst unique_loop.simps) (simp add: taken_def)
  qed
qed

lemma unique_loop_first:
  "taken fs ex cand \<Longrightarrow>
   \<exists>N\<ge>c. unique_loop fs ex d stm cand c = numbered d stm N \<and>
     (\<forall>M. c \<le> M \<and> M < N \<longrightarrow> taken fs ex (numbered d stm M))"
proof (induction fs ex d stm cand c rule: unique_loop.induct)
  case (1 fs ex d stm cand c)
  have unfold: "unique_loop fs ex d stm cand c = unique_loop fs ex d stm (numbered d stm c) (c + 1)"
    using "1.prems" by (subst unique_loop.simps) (simp add: taken_def numbered_def)
  show ?case
  proof (cases "taken fs ex (numbered d stm c)")
    case False
    then have "unique_loop fs ex d stm (numbered d stm c) (c + 1) = numbered d stm c"
      by (subst unique_loop.simps) (simp add: taken_def)
    with unfold show ?thesis by (intro exI [of _ c]) auto
  next
    case True
    have "\<exists>N\<ge>c + 1. unique_loop fs ex d stm (numbered d stm c) (c + 1) = numbered d stm N \<and>
       (\<forall>M. c + 1 \<le> M \<and> M < N \<longrightarrow> taken fs ex (numbered d stm M))"
      using "1.IH" [unfolded numbered_def [symmetric]] "1.prems" True
      by (simp add: taken_def numbered_def)
    then obtain N where N: "c + 1 \<le> N" "unique_loop fs ex d stm (numbered d stm c) (c + 1) = numbered d stm N"
      "\<forall>M. c + 1 \<le> M \<and> M < N \<longrightarrow> taken fs ex (numbered d stm M)" by blast
    have "\<forall>M. c \<le> M \<and> M < N \<longrightarrow> taken fs ex (numbered d stm M)"
    proof (intro allI impI)
      fix M assume "c \<le> M \<and> M < N"
      then consider "M = c" | "c + 1 \<le> M \<and> M < N" by force
      then show "taken fs ex (numbered d stm M)" using True N(3) by cases auto
    qed
    with N unfold show ?thesis by (intro exI [of _ N]) auto
  qed
qed

lemma unique_loop_base:
  "\<not> taken fs ex cand \<Longrightarrow> unique_loop fs ex d stm cand c = cand"
  by (subst unique_loop.simps) (simp add: taken_def)

lemma lookup_cons:
  "lookup (fs\<lparr>nodes := (q, n) # nodes fs\<rparr>) p = (if p = [] then Some (Node True 0) else if p = q then Some n else lookup fs p)"
  by (simp add: lookup_def)

lemma mkdir_each_exists:
  "mkdir_each fs qs = Inr fs' \<Longrightarrow> path_exists fs p \<Longrightarrow> path_exists fs' p"
proof (induction qs arbitrary: fs)
  case Nil
  then show ?case by simp
next
  case (Cons q qs)
  show ?case
  proof (cases "lookup fs q")
    case None
    with Cons.prems(1) have nd: "q \<notin> set (mkdir_denied fs)"
      and rec: "mkdir_each (fs\<lparr>nodes := (q, Node True 0) # nodes fs\<rparr>) qs = Inr fs'"
      by (auto split: if_splits)
    have "path_exists (fs\<lparr>nodes := (q, Node True 0) # nodes fs\<rparr>) p"
      using Cons.prems(2) by (simp add: path_exists_def lookup_cons)
    with rec show ?thesis by (rule Cons.IH)
  next
    case (Some n)
    with Cons.prems(1) have "mkdir_each fs qs = Inr fs'" by (auto split: if_splits)
    then show ?thesis using Cons.prems(2) by (rule Cons.IH)
  qed
qed

lemma mkdir_parents_exists:
  "mkdir_parents fs d = Inr fs' \<Longrightarrow> path_exists fs p \<Longrightarrow> path_exists fs' p"
  unfolding mkdir_parents_def by (rule mkdir_each_exists)

lemma get_unique_target_path_Inr:
  assumes "get_unique_target_path s fs in_path ex = Inr (p, fs')"
  shows "mkdir_parents fs (target_dir_of s in_path) = Inr fs'"
    and "p = unique_loop fs' ex (target_dir_of s in_path) (stem in_path)
               (joinpath (target_dir_of s in_path) (stem in_path @ ''.jxl'')) 1"
  using assms by (auto simp: get_unique_target_path_def Let_def split: sum.splits)

lemma get_unique_target_path_fresh:
  assumes "get_unique_target_path s fs in_path ex = Inr (p, fs')"
  shows "str_path p \<notin> set ex" and "\<not> path_exists fs' p" and "\<not> path_exists fs p"
proof -
  have nt: "\<not> taken fs' ex p"
    using get_unique_target_path_Inr(2) [OF assms] unique_loop_free by simp
  then show "str_path p \<notin> set ex" and a: "\<not> path_exists fs' p" by (simp_all add: taken_def)
  show "\<not> path_exists fs p"
    using a mkdir_parents_exists [OF get_unique_target_path_Inr(1) [OF assms]] by blast
qed

lemma build_tasks_invariant:
  assumes "build_tasks b idxs s fs ex tasks = Inr (tasks', s', fs')"
    and "distinct (map (\<lambda>t. str_path (t_target_path t)) tasks)"
    and "set (map (\<lambda>t. str_path (t_target_path t)) tasks) \<subseteq> set ex"
    and "\<forall>t\<in>set tasks. \<not> path_exists fs0 (t_target_path t)"
    and "\<forall>p. path_exists fs0 p \<longrightarrow> path_exists fs p"
  shows "distinct (map (\<lambda>t. str_path (t_target_path t)) tasks') \<and>
         (\<forall>t\<in>set tasks'. \<not> path_exists fs0 (t_target_path t)) \<and>
         (\<forall>p. path_exists fs0 p \<longrightarrow> path_exists fs' p) \<and>
         map t_idx tasks' = map t_idx tasks @ idxs \<and>
         (\<forall>t\<in>set tasks'. t \<in> set tasks \<or> t_sanitize t = b)"
  using assms
proof (induction idxs arbitrary: s fs ex tasks)
  case Nil
  then show ?case by simp
next
  case (Cons idx idxs)
  from Cons.prems(1) obtain target fs1 r where
    g: "get_unique_target_path s fs (files s ! idx) ex = Inr (target, fs1)"
    and st: "statuses s idx = Some r"
    and rec: "build_tasks b idxs
        (s\<lparr>statuses := (statuses s)(idx \<mapsto> r\<lparr>target_path := Some target\<rparr>)\<rparr>) fs1
        (str_path target # ex)
        (tasks @ [\<lparr>t_idx = idx, t_target_path = target, t_sanitize = b\<rparr>]) = Inr (tasks', s', fs')"
    by (auto simp: Let_def split: if_splits sum.splits option.splits)
  note fresh = get_unique_target_path_fresh [OF g]
  have mono: "\<forall>p. path_exists fs0 p \<longrightarrow> path_exists fs1 p"
    using Cons.prems(5) mkdir_parents_exists [OF get_unique_target_path_Inr(1) [OF g]] by blast
  have d: "distinct (map (\<lambda>t. str_path (t_target_path t))
              (tasks @ [\<lparr>t_idx = idx, t_target_path = target, t_sanitize = b\<rparr>]))"
    using Cons.prems(2,3) fresh(1) by auto
  have sub: "set (map (\<lambda>t. str_path (t_target_path t))
              (tasks @ [\<lparr>t_idx = idx, t_target_path = target, t_sanitize = b\<rparr>]))
            \<subseteq> set (str_path target # ex)"
    using Cons.prems(3) by auto
  have ne: "\<forall>t\<in>set (tasks @ [\<lparr>t_idx = idx, t_target_path = target, t_sanitize = b\<rparr>]).
              \<not> path_exists fs0 (t_target_path t)"
    using Cons.prems(4) fresh(2) mono by auto
  from Cons.IH [OF rec d sub ne mono] show ?case by auto
qed

lemma distinct_map_str:
  "distinct (map (\<lambda>t. str_path (t_target_path t)) tasks) \<Longrightarrow> distinct (map t_target_path tasks)"
proof -
  assume "distinct (map (\<lambda>t. str_path (t_target_path t)) tasks)"
  then have "distinct (map str_path (map t_target_path tasks))" by (simp add: comp_def)
  then show ?thesis by (auto simp: distinct_map intro: inj_on_imageI2)
qed

lemma build_tasks_state:
  "build_tasks b idxs s fs ex tasks = Inr (tasks', s', fs') \<Longrightarrow> s' = s\<lparr>statuses := statuses s'\<rparr>"
proof (induction idxs arbitrary: s fs ex tasks)
  case Nil
  then show ?case by simp
next
  case (Cons idx idxs)
  from Cons.prems obtain target fs1 r where
    "build_tasks b idxs
        (s\<lparr>statuses := (statuses s)(idx \<mapsto> r\<lparr>target_path := Some target\<rparr>)\<rparr>) fs1
        (str_path target # ex)
        (tasks @ [\<lparr>t_idx = idx, t_target_path = target, t_sanitize = b\<rparr>]) = Inr (tasks', s', fs')"
    by (auto simp: Let_def split: if_splits sum.splits option.splits)
  from Cons.IH [OF this] show ?case by simp
qed

lemma build_tasks_state_Inl:
  "build_tasks b idxs s fs ex tasks = Inl (err, s', fs') \<Longrightarrow> s' = s\<lparr>statuses := statuses s'\<rparr>"
proof (induction idxs arbitrary: s fs ex tasks)
  case Nil
  then show ?case by simp
next
  case (Cons idx idxs)
  show ?case
  proof (cases "s' = s")
    case True
    then show ?thesis by simp
  next
    case False
    with Cons.prems obtain target fs1 r where
      "build_tasks b idxs
        (s\<lparr>statuses := (statuses s)(idx \<mapsto> r\<lparr>target_path := Some target\<rparr>)\<rparr>) fs1
        (str_path target # ex)
        (tasks @ [\<lparr>t_idx = idx, t_target_path = target, t_sanitize = b\<rparr>]) = Inl (err, s', fs')"
      by (auto simp: Let_def split: if_splits sum.splits option.splits)
    from Cons.IH [OF this] show ?thesis by simp
  qed
qed

lemma enqueue_tasks_state:
  "enqueue_tasks tasks s = Inr s' \<Longrightarrow>
   s' = s\<lparr>conversion_queue := conversion_queue s @ tasks, statuses := statuses s',
          failed_indices := failed_indices s - t_idx ` set tasks\<rparr>"
proof (induction tasks arbitrary: s)
  case Nil
  then show ?case by simp
next
  case (Cons t ts)
  from Cons.prems obtain r where
    "enqueue_tasks ts
       (s\<lparr>conversion_queue := conversion_queue s @ [t],
          statuses := (statuses s)(t_idx t \<mapsto> r\<lparr>status := QUEUED\<rparr>),
          failed_indices := failed_indices s - {t_idx t}\<rparr>) = Inr s'"
    by (auto simp: Let_def split: option.splits)
  from Cons.IH [OF this] have "s' = s
     \<lparr>conversion_queue := conversion_queue s @ t # ts, statuses := statuses s',
        failed_indices := failed_indices s - {t_idx t} - t_idx ` set ts\<rparr>" by simp
  moreover have "failed_indices s - {t_idx t} - t_idx ` set ts = failed_indices s - t_idx ` set (t # ts)"
    by auto
  ultimately show ?case by simp
qed

lemma start_conversion_session_Returned:
  assumes "start_conversion_session b (s, e) = Returned (s', e')"
  shows "(\<exists>msg color. s' = show_message msg color s) \<or>
    (\<exists>tasks s1 s3.
      build_tasks b (sorted_list_of_set (selected s)) s (filesystem e) [] []
         = Inr (tasks, s1, filesystem e') \<and>
      enqueue_tasks tasks
         (if \<not> b then s1\<lparr>is_converting := True, start_time := now e,
                           conversions_success := 0, conversions_failed := 0,
                           total_bytes_before := 0, total_bytes_after := 0\<rparr> else s1) = Inr s3 \<and>
      s' = start_worker s3 \<and> \<not> is_converting s \<and> selected s \<noteq> {})"
proof (cases "is_converting s \<or> selected s = {} \<or> \<not> truthy (cjxl_cmd s)")
  case True
  then have "\<exists>msg color. s' = show_message msg color s"
    using assms by (auto simp: start_conversion_session_def split: if_splits)
  then show ?thesis by blast
next
  case False
  note guards = False
  obtain proceed ks where dlg:
    "(if delete_originals s \<and> \<not> b then confirmation_dialog_run (keys e) else Some (True, keys e))
       = Some (proceed, ks)"
    using assms False
    by (cases "if delete_originals s \<and> \<not> b then confirmation_dialog_run (keys e) else Some (True, keys e)")
       (auto simp: start_conversion_session_def)
  show ?thesis
  proof (cases proceed)
    case False
    with dlg guards assms
    have "s' = show_message ''Conversion cancelled.'' 5 s"
      by (simp add: start_conversion_session_def Let_def)
    then show ?thesis by blast
  next
    case True
    with dlg False assms
    obtain tasks s1 fs1 s3 where
      "build_tasks b (sorted_list_of_set (selected s)) s (filesystem e) [] [] = Inr (tasks, s1, fs1)"
      "enqueue_tasks tasks
         (if \<not> b then s1\<lparr>is_converting := True, start_time := now e,
                           conversions_success := 0, conversions_failed := 0,
                           total_bytes_before := 0, total_bytes_after := 0\<rparr> else s1) = Inr s3"
      "s' = start_worker s3" "filesystem e' = fs1"
      by (auto simp: start_conversion_session_def Let_def split: sum.splits prod.splits if_splits) blast+
    with False show ?thesis by blast
  qed
qed

lemmas session_eval =
  start_conversion_session_def example_tui_eq example_env_def example_fs_def truthy_def
  get_unique_target_path_def target_dir_of_def mkdir_parents_def lookup_def Let_def
  unique_loop_step unique_loop_stop str_path_def path_exists_def joinpath_def stem_def stem_of_def
  path_name_def rfind_def parent_def relative_to_def
  str_nat_small str_nat_big digit_char_def start_worker_def pending_record_def show_message_def

text \<open>
  C1. The tasks a call of \<^verbatim>\<open>_start_conversion_session\<close> puts on the queue have pairwise
  distinct target paths (as paths and as the strings the method compares), none of
  which exists on disk when the call begins; the same holds for the build loop over
  any list of indices, which makes one task per index, in order. When the resolver
  returns, the target directory was created; the path returned is neither reserved
  nor existing; it is \<^verbatim>\<open><stem>.jxl\<close> when that candidate is free, and otherwise
  \<^verbatim>\<open><stem>-N.jxl\<close> for the least \<open>N \<ge> 1\<close> whose candidate is free.
\<close>

theorem target_paths_unique:
  "(start_conversion_session is_sanitize_run (s, e) = Returned (s', e') \<longrightarrow>
      (\<exists>tasks. conversion_queue s' = conversion_queue s @ tasks \<and>
         distinct (map t_target_path tasks) \<and>
         distinct (map (\<lambda>t. str_path (t_target_path t)) tasks) \<and>
         list_all (\<lambda>t. \<not> path_exists (filesystem e) (t_target_path t)) tasks)) \<and>
   (build_tasks is_sanitize_run idxs s fs [] [] = Inr (built, s1, fs1) \<longrightarrow>
      map t_idx built = idxs \<and>
      distinct (map t_target_path built) \<and>
      distinct (map (\<lambda>t. str_path (t_target_path t)) built) \<and>
      list_all (\<lambda>t. \<not> path_exists fs (t_target_path t)) built) \<and>
   (get_unique_target_path s fs in_path existing_targets = Inr (p, fs2) \<longrightarrow>
      mkdir_parents fs (target_dir_of s in_path) = Inr fs2 \<and>
      \<not> taken fs2 existing_targets p \<and>
      (if taken fs2 existing_targets (joinpath (target_dir_of s in_path) (stem in_path @ ''.jxl''))
       then \<exists>N\<ge>1. p = numbered (target_dir_of s in_path) (stem in_path) N \<and>
              (\<forall>M. 1 \<le> M \<and> M < N \<longrightarrow>
                 taken fs2 existing_targets (numbered (target_dir_of s in_path) (stem in_path) M))
       else p = joinpath (target_dir_of s in_path) (stem in_path @ ''.jxl'')))"
proof (intro conjI impI)
  assume a: "start_conversion_session is_sanitize_run (s, e) = Returned (s', e')"
  from start_conversion_session_Returned [OF a]
  show "\<exists>tasks. conversion_queue s' = conversion_queue s @ tasks \<and>
         distinct (map t_target_path tasks) \<and>
         distinct (map (\<lambda>t. str_path (t_target_path t)) tasks) \<and>
         list_all (\<lambda>t. \<not> path_exists (filesystem e) (t_target_path t)) tasks"
  proof
    assume "\<exists>msg color. s' = show_message msg color s"
    then have "conversion_queue s' = conversion_queue s @ []" by (auto simp: show_message_def)
    then show ?thesis by (intro exI [of _ "[]"]) simp
  next
    assume "\<exists>tasks s1 s3.
      build_tasks is_sanitize_run (sorted_list_of_set (selected s)) s (filesystem e) [] []
         = Inr (tasks, s1, filesystem e') \<and>
      enqueue_tasks tasks
         (if \<not> is_sanitize_run then s1\<lparr>is_converting := True, start_time := now e,
                           conversions_success := 0, conversions_failed := 0,
                           total_bytes_before := 0, total_bytes_after := 0\<rparr> else s1) = Inr s3 \<and>
      s' = start_worker s3 \<and> \<not> is_converting s \<and> selected s \<noteq> {}"
    then obtain tasks s1 s3 where
      b: "build_tasks is_sanitize_run (sorted_list_of_set (selected s)) s (filesystem e) [] []
         = Inr (tasks, s1, filesystem e')"
      and q: "enqueue_tasks tasks
         (if \<not> is_sanitize_run then s1\<lparr>is_converting := True, start_time := now e,
                           conversions_success := 0, conversions_failed := 0,
                           total_bytes_before := 0, total_bytes_after := 0\<rparr> else s1) = Inr s3"
      and w: "s' = start_worker s3" by blast
    have s1: "conversion_queue s1 = conversion_queue s"
      using build_tasks_state [OF b] by (metis tui.select_convs(17) tui.surjective tui.update_convs(4))
    have "conversion_queue s3 = conversion_queue s @ tasks"
      using enqueue_tasks_state [OF q] s1
      by (cases is_sanitize_run) (simp_all, (metis tui.select_convs(17) tui.surjective tui.update_convs(4) tui.update_convs(5) tui.update_convs(17))+)
    then have queue: "conversion_queue s' = conversion_queue s @ tasks"
      using w by (simp add: start_worker_def)
    from build_tasks_invariant [OF b, of "filesystem e"]
    have "distinct (map (\<lambda>t. str_path (t_target_path t)) tasks)"
      and "\<forall>t\<in>set tasks. \<not> path_exists (filesystem e) (t_target_path t)" by simp_all
    with queue show ?thesis
      by (intro exI [of _ tasks]) (simp add: distinct_map_str list_all_iff)
  qed
next
  assume b: "build_tasks is_sanitize_run idxs s fs [] [] = Inr (built, s1, fs1)"
  from build_tasks_invariant [OF b, of fs]
  have d: "distinct (map (\<lambda>t. str_path (t_target_path t)) built)"
    and n: "\<forall>t\<in>set built. \<not> path_exists fs (t_target_path t)"
    and i: "map t_idx built = idxs" by simp_all
  show "map t_idx built = idxs" by (rule i)
  show "distinct (map t_target_path built)" using d by (rule distinct_map_str)
  show "distinct (map (\<lambda>t. str_path (t_target_path t)) built)" by (rule d)
  show "list_all (\<lambda>t. \<not> path_exists fs (t_target_path t)) built" using n by (simp add: list_all_iff)
next
  assume g: "get_unique_target_path s fs in_path existing_targets = Inr (p, fs2)"
  note p = get_unique_target_path_Inr(2) [OF g]
  show "mkdir_parents fs (target_dir_of s in_path) = Inr fs2"
    by (rule get_unique_target_path_Inr(1) [OF g])
  show "\<not> taken fs2 existing_targets p" using p unique_loop_free by simp
  show "if taken fs2 existing_targets (joinpath (target_dir_of s in_path) (stem in_path @ ''.jxl''))
       then \<exists>N\<ge>1. p = numbered (target_dir_of s in_path) (stem in_path) N \<and>
              (\<forall>M. 1 \<le> M \<and> M < N \<longrightarrow>
                 taken fs2 existing_targets (numbered (target_dir_of s in_path) (stem in_path) M))
       else p = joinpath (target_dir_of s in_path) (stem in_path @ ''.jxl'')"
    using p unique_loop_first [of fs2 existing_targets _ 1 "target_dir_of s in_path" "stem in_path"]
      unique_loop_base [of fs2 existing_targets _ "target_dir_of s in_path" "stem in_path" 1]
    by auto
qed

theorem target_paths_unique_witness:
  "\<exists>s' e'. start_conversion_session False (example_tui\<lparr>selected := {0, 1}\<rparr>, example_env)
              = Returned (s', e') \<and>
     map t_target_path (conversion_queue s') = [[''converted'', ''a.jxl''], [''converted'', ''a-1.jxl'']] \<and>
     distinct (map t_target_path (conversion_queue s'))"
proof -
  obtain s' e' where r: "start_conversion_session False (example_tui\<lparr>selected := {0, 1}\<rparr>, example_env)
              = Returned (s', e')"
    and q: "map t_target_path (conversion_queue s') = [[''converted'', ''a.jxl''], [''converted'', ''a-1.jxl'']]"
    by (simp add: session_eval)
  have empty: "conversion_queue (example_tui\<lparr>selected := {0, 1}\<rparr>) = []"
    by (simp add: example_tui_eq)
  from target_paths_unique [of False "example_tui\<lparr>selected := {0, 1}\<rparr>" example_env s' e'] r empty
  have "distinct (map t_target_path (conversion_queue s'))" by auto
  with r q show ?thesis by (intro exI [of _ s'] exI [of _ e'] conjI)
qed

subsection \<open>A batch build that raises\<close>








subsection \<open>The run of the example session\<close>

lemmas key_eval =
  KEY_UP_def KEY_DOWN_def KEY_PPAGE_def KEY_NPAGE_def KEY_ENTER_def KEY_F5_def KEY_RESIZE_def
  KEY_BACKSPACE_def ord_def chr_def char_of_def char_key_of_def is_nav_key_def

lemmas loop_eval =
  tick_def process_key_def handle_input_def get_visible_files_def adjust_scroll_def clamp_row_def
  process_status_queue_def finish_batch_def prompt_for_sanitize_def apply_update_def
  set_info_str_def merge_update_def py_nth_def savings_info_def

lemmas worker_eval =
  conversion_worker_iteration_def process_task_def sanitize_input_def encode_def report_def
  error_msg_def is_jpeg_def path_suffix_def suffix_of_def lower_def lower_char_def
  update_status_def subprocess_run_def stat_size_def unlink_def temp_png_of_def
  sanitize_failed_def str_int_def error_name_def strip_def splitlines_def isspace_def is_linebreak_def

lemma first_tick: "tick (example_tui, batch_env) = Returned (False, queued_tui, queued_env)"
  by (simp add: queued_tui_def queued_env_def batch_env_def session_eval key_eval loop_eval)

lemma worker_two: "conversion_worker 2 (queued_tui, queued_env\<lparr>worker_schedule := []\<rparr>) = (worked_tui, worked_env)"
  by (simp add: worked_tui_def worked_env_def queued_tui_def queued_env_def batch_env_def session_eval worker_eval numeral_2_eq_2)

lemma str_nat_two: "str_nat (Suc (Suc 0)) = ''2''" by (simp add: format_eval)
lemma format_f_zero: "format_f 2 0 = ''0.00''" by (simp add: format_eval)
lemma format_bytes_700: "format_bytes 700 = Inr ''700.0B''" by (simp add: format_eval)
lemma format_f_70: "format_f (Suc 0) 70 = ''70.0''" by (simp add: format_eval)

lemma status_two: "process_status_queue (worked_tui, worked_env\<lparr>keys := [121]\<rparr>) = Returned (retry_tui, retry_env)"
  by (simp add: retry_tui_def retry_env_def worked_tui_def worked_env_def queued_tui_def queued_env_def batch_env_def
   session_eval process_status_queue_def finish_batch_def prompt_for_sanitize_def ord_def
   apply_update_def set_info_str_def merge_update_def savings_info_def str_nat_two format_f_zero format_bytes_700 format_f_70)

lemma second_tick: "tick (queued_tui, queued_env) = Returned (False, retry_tui, retry_env)"
proof -
  have w: "conversion_worker 2 (queued_tui, queued_env\<lparr>worker_schedule := []\<rparr>) = (worked_tui, worked_env)"
    by (rule worker_two)
  have k: "keys worked_env = [- 1, 121]" "worker_schedule queued_env = [2]"
    by (simp_all add: worked_env_def queued_env_def)
  have l: "last_conversion_summary worked_tui = []" "current_row retry_tui = 0"
    "get_visible_files retry_tui = Inr [(0, [''pics'', ''a.jpg'']), (1, [''pics'', ''a.png''])]"
    by (simp_all add: retry_tui_def worked_tui_def queued_tui_def example_tui_eq get_visible_files_def)
  show ?thesis
    using w k l status_two
    by (simp add: tick_def clamp_row_def is_nav_key_def)
qed

lemma two_ticks: "ticks 2 (example_tui, batch_env) = Returned (False, retry_tui, retry_env)"
  by (simp add: numeral_2_eq_2 first_tick second_tick)

lemma start_conversion_session_started:
  assumes "start_conversion_session b (s, e) = Returned (s', e')"
    and "conversion_queue s' \<noteq> conversion_queue s"
  shows "\<exists>tasks s1 s3.
      build_tasks b (sorted_list_of_set (selected s)) s (filesystem e) [] []
         = Inr (tasks, s1, filesystem e') \<and>
      enqueue_tasks tasks
         (if \<not> b then s1\<lparr>is_converting := True, start_time := now e,
                           conversions_success := 0, conversions_failed := 0,
                           total_bytes_before := 0, total_bytes_after := 0\<rparr> else s1) = Inr s3 \<and>
      s' = start_worker s3 \<and> \<not> is_converting s \<and> selected s \<noteq> {}"
proof -
  have "\<not> (\<exists>msg color. s' = show_message msg color s)"
    using assms(2) by (auto simp: show_message_def)
  with start_conversion_session_Returned [OF assms(1)] show ?thesis by blast
qed

text \<open>
  C2, as the code has it. A call of \<^verbatim>\<open>_start_conversion_session\<close> that enqueues tasks removes
  their indices from \<^verbatim>\<open>failed_indices\<close>. A fresh batch sets \<^verbatim>\<open>is_converting\<close> and resets the
  counters and the start time. A sanitize retry leaves the counters and the start time as
  they were, and leaves \<^verbatim>\<open>is_converting\<close> false: the assignment that makes a batch active
  stands under \<^verbatim>\<open>if not is_sanitize_run\<close>, so a retry batch is never active.
\<close>

theorem batch_start_flags:
  "start_conversion_session is_sanitize_run (s, e) = Returned (s', e') \<and>
   conversion_queue s' \<noteq> conversion_queue s \<longrightarrow>
     (\<exists>tasks. conversion_queue s' = conversion_queue s @ tasks \<and>
        failed_indices s' = failed_indices s - t_idx ` set tasks \<and>
        (if is_sanitize_run
         then is_converting s' = False \<and>
              conversions_success s' = conversions_success s \<and>
              conversions_failed s' = conversions_failed s \<and>
              total_bytes_before s' = total_bytes_before s \<and>
              total_bytes_after s' = total_bytes_after s \<and>
              start_time s' = start_time s
         else is_converting s' = True \<and>
              conversions_success s' = 0 \<and> conversions_failed s' = 0 \<and>
              total_bytes_before s' = 0 \<and> total_bytes_after s' = 0 \<and>
              start_time s' = now e))"
proof
  assume a: "start_conversion_session is_sanitize_run (s, e) = Returned (s', e') \<and>
   conversion_queue s' \<noteq> conversion_queue s"
  from start_conversion_session_started [of is_sanitize_run s e s' e'] a
  obtain tasks s1 s3 where
    b: "build_tasks is_sanitize_run (sorted_list_of_set (selected s)) s (filesystem e) [] []
         = Inr (tasks, s1, filesystem e')"
    and q: "enqueue_tasks tasks
         (if \<not> is_sanitize_run then s1\<lparr>is_converting := True, start_time := now e,
                           conversions_success := 0, conversions_failed := 0,
                           total_bytes_before := 0, total_bytes_after := 0\<rparr> else s1) = Inr s3"
    and w: "s' = start_worker s3" and idle: "\<not> is_converting s" by blast
  note e1 = build_tasks_state [OF b]
  have f1: "conversion_queue s1 = conversion_queue s" "failed_indices s1 = failed_indices s"
    "is_converting s1 = is_converting s" "conversions_success s1 = conversions_success s"
    "conversions_failed s1 = conversions_failed s" "total_bytes_before s1 = total_bytes_before s"
    "total_bytes_after s1 = total_bytes_after s" "start_time s1 = start_time s"
    using arg_cong [OF e1, of conversion_queue] arg_cong [OF e1, of failed_indices]
      arg_cong [OF e1, of is_converting] arg_cong [OF e1, of conversions_success]
      arg_cong [OF e1, of conversions_failed] arg_cong [OF e1, of total_bytes_before]
      arg_cong [OF e1, of total_bytes_after] arg_cong [OF e1, of start_time]
    by simp_all
  note e3 = enqueue_tasks_state [OF q]
  show "\<exists>tasks. conversion_queue s' = conversion_queue s @ tasks \<and>
        failed_indices s' = failed_indices s - t_idx ` set tasks \<and>
        (if is_sanitize_run
         then is_converting s' = False \<and>
              conversions_success s' = conversions_success s \<and>
              conversions_failed s' = conversions_failed s \<and>
              total_bytes_before s' = total_bytes_before s \<and>
              total_bytes_after s' = total_bytes_after s \<and>
              start_time s' = start_time s
         else is_converting s' = True \<and>
              conversions_success s' = 0 \<and> conversions_failed s' = 0 \<and>
              total_bytes_before s' = 0 \<and> total_bytes_after s' = 0 \<and>
              start_time s' = now e)"
  proof (cases is_sanitize_run)
    case True
    have "conversion_queue s3 = conversion_queue s @ tasks"
      "failed_indices s3 = failed_indices s - t_idx ` set tasks"
      "is_converting s3 = is_converting s" "conversions_success s3 = conversions_success s"
      "conversions_failed s3 = conversions_failed s" "total_bytes_before s3 = total_bytes_before s"
      "total_bytes_after s3 = total_bytes_after s" "start_time s3 = start_time s"
      using arg_cong [OF e3, of conversion_queue] arg_cong [OF e3, of failed_indices]
        arg_cong [OF e3, of is_converting] arg_cong [OF e3, of conversions_success]
        arg_cong [OF e3, of conversions_failed] arg_cong [OF e3, of total_bytes_before]
        arg_cong [OF e3, of total_bytes_after] arg_cong [OF e3, of start_time] True f1
      by simp_all
    with True w idle show ?thesis
      by (intro exI [of _ tasks]) (simp add: start_worker_def)
  next
    case False
    have "conversion_queue s3 = conversion_queue s @ tasks"
      "failed_indices s3 = failed_indices s - t_idx ` set tasks"
      "is_converting s3 = True" "conversions_success s3 = 0"
      "conversions_failed s3 = 0" "total_bytes_before s3 = 0"
      "total_bytes_after s3 = 0" "start_time s3 = now e"
      using arg_cong [OF e3, of conversion_queue] arg_cong [OF e3, of failed_indices]
        arg_cong [OF e3, of is_converting] arg_cong [OF e3, of conversions_success]
        arg_cong [OF e3, of conversions_failed] arg_cong [OF e3, of total_bytes_before]
        arg_cong [OF e3, of total_bytes_after] arg_cong [OF e3, of start_time] False f1
      by simp_all
    with False w show ?thesis
      by (intro exI [of _ tasks]) (simp add: start_worker_def)
  qed
qed

theorem batch_start_flags_witness:
  "ticks 2 (example_tui, batch_env) = Returned (False, retry_tui, retry_env) \<and>
   start_conversion_session True
     (retry_tui\<lparr>statuses := (statuses retry_tui)
         (0 \<mapsto> \<lparr>status = FAILED, message = ''cjxl error'', info_str = ''cjxl error'',
                  target_path = Some [''converted'', ''a.jxl''],
                  size_before = None, size_after = None\<rparr>),
        failed_indices := {0}, conversion_queue := []\<rparr>, retry_env)
     = Returned (retry_tui, retry_env) \<and>
   conversion_queue retry_tui
     = [\<lparr>t_idx = 0, t_target_path = [''converted'', ''a.jxl''], t_sanitize = True\<rparr>] \<and>
   is_converting retry_tui = False \<and>
   failed_indices retry_tui = {} \<and>
   conversions_success retry_tui + conversions_failed retry_tui = 2 \<and>
   card (selected retry_tui) = 1"
proof -
  let ?pre = "retry_tui\<lparr>statuses := (statuses retry_tui)
         (0 \<mapsto> \<lparr>status = FAILED, message = ''cjxl error'', info_str = ''cjxl error'',
                  target_path = Some [''converted'', ''a.jxl''],
                  size_before = None, size_after = None\<rparr>),
        failed_indices := {0}, conversion_queue := []\<rparr>"
  have call: "start_conversion_session True (?pre, retry_env) = Returned (retry_tui, retry_env)"
    by (simp add: retry_tui_def retry_env_def worked_tui_def worked_env_def queued_tui_def
        queued_env_def batch_env_def session_eval)
  have queue: "conversion_queue retry_tui
     = [\<lparr>t_idx = 0, t_target_path = [''converted'', ''a.jxl''], t_sanitize = True\<rparr>]"
    "conversion_queue ?pre = []" "failed_indices ?pre = {0}"
    by (simp_all add: retry_tui_def)
  have counts: "conversions_success retry_tui + conversions_failed retry_tui = 2"
    "card (selected retry_tui) = 1"
    by (simp_all add: retry_tui_def)
  from batch_start_flags [of True ?pre retry_env retry_tui retry_env] call queue
  have "is_converting retry_tui = False \<and> failed_indices retry_tui = {}"
    by auto
  with two_ticks call queue(1) counts show ?thesis by simp
qed

subsection \<open>The encoder invocations\<close>

text \<open>
  C3, as the code has it. With the encoder found, the encode step appends to the
  commands run so far: for a JPEG input that is not a sanitize retry, the lossless
  command, followed, when it exits non-zero, by the fallback command
  \<^verbatim>\<open>encoder <input> <output> --effort <e> -q <quality> --quiet\<close>, which carries no
  \<^verbatim>\<open>--lossless_jpeg\<close> option; for every other task, the single command
  \<^verbatim>\<open>encoder <input> <output> --effort <e> --lossless_jpeg 0 -q <quality> --quiet\<close>.
  Nothing follows a lossless command that exits with 0 or cannot be started.
\<close>

theorem encode_invocations:
  "cjxl_cmd s = Some cjxl \<longrightarrow>
     (let cmd = [cjxl, str_path source_file_for_cjxl, str_path target,
                 ''--effort'', str_int (effort s)];
          lossless_cmd = cmd @ [''--lossless_jpeg'', ''1'', ''--quiet''];
          fallback_cmd = cmd @ [''-q'', str_int (quality s), ''--quiet''];
          quality_cmd = cmd @ [''--lossless_jpeg'', ''0'', ''-q'', str_int (quality s), ''--quiet''];
          e' = (case encode use_sanitize input_path source_file_for_cjxl target (s, e) of
                  Inl (err, s1, e1) \<Rightarrow> e1
                | Inr (result, s1, e1) \<Rightarrow> e1)
      in invocations e' = invocations e @
           (if is_jpeg input_path \<and> \<not> use_sanitize then
              (case fst (run_process e lossless_cmd (filesystem e)) of
                 Inl err \<Rightarrow> [lossless_cmd]
               | Inr result \<Rightarrow>
                   if returncode result \<noteq> 0 then [lossless_cmd, fallback_cmd]
                   else [lossless_cmd])
            else [quality_cmd]))"
  by (auto simp: encode_def subprocess_run_def Let_def split: prod.splits sum.splits)

theorem encode_invocations_witness:
  "invocations
     (case encode False [''pics'', ''a.jpg''] [''pics'', ''a.jpg''] [''converted'', ''a.jxl'']
             (example_tui, example_env) of
        Inl (err, s1, e1) \<Rightarrow> e1
      | Inr (result, s1, e1) \<Rightarrow> e1)
     = [[''/usr/bin/cjxl'', ''/pics/a.jpg'', ''/converted/a.jxl'',
         ''--effort'', ''7'', ''--lossless_jpeg'', ''1'', ''--quiet''],
        [''/usr/bin/cjxl'', ''/pics/a.jpg'', ''/converted/a.jxl'',
         ''--effort'', ''7'', ''-q'', ''90'', ''--quiet'']]"
  using encode_invocations [where s = example_tui and cjxl = "''/usr/bin/cjxl''"
      and e = example_env and use_sanitize = False and input_path = "[''pics'', ''a.jpg'']"
      and source_file_for_cjxl = "[''pics'', ''a.jpg'']" and target = "[''converted'', ''a.jxl'']"]
  by (simp add: example_tui_eq example_env_def Let_def is_jpeg_def path_suffix_def suffix_of_def
      path_name_def rfind_def lower_def lower_char_def str_path_def str_int_def
      str_nat_small str_nat_big digit_char_def)

text \<open>
  In the run of the example session the worker makes three invocations. The second, the
  fallback after the failed lossless transcode of \<^verbatim>\<open>a.jpg\<close>, has neither of the two
  forms with \<^verbatim>\<open>--lossless_jpeg\<close>.
\<close>

theorem encode_invocations_counterexample:
  "invocations (snd (conversion_worker 2 (queued_tui, queued_env\<lparr>worker_schedule := []\<rparr>))) ! 1
     = [''/usr/bin/cjxl'', ''/pics/a.jpg'', ''/converted/a.jxl'',
        ''--effort'', ''7'', ''-q'', ''90'', ''--quiet''] \<and>
   ''--lossless_jpeg''
     \<notin> set (invocations
              (snd (conversion_worker 2 (queued_tui, queued_env\<lparr>worker_schedule := []\<rparr>))) ! 1)"
  by (simp add: worker_two worked_env_def)

subsection \<open>The temporary file of a sanitize task\<close>

text \<open>
  C4, as the code has it. The temporary file is removed by three statements: after a
  failed sanitize step, and after the encoder has returned, whatever its result. No
  \<^verbatim>\<open>finally\<close> clause guards it. When the sanitizer has produced the file and
  \<^verbatim>\<open>subprocess.run\<close> then raises for the encoder (the executable is gone or may not be
  started), the handler of the worker records the crash and the iteration ends with the
  file system as the failed start left it: the temporary file is not removed.
\<close>

theorem temp_file_left_on_crash:
  assumes "conversion_thread_alive s" and "\<not> stop_thread s"
    and "conversion_queue s = tsk # rest" and "t_sanitize tsk"
    and "t_idx tsk < length (files s)"
    and "imagemagick_cmd s = Some magick" and "magick \<noteq> []" and "cjxl_cmd s = Some cjxl"
    and "temp_png = temp_png_of e (files s ! t_idx tsk)"
    and "subprocess_run [magick, str_path (files s ! t_idx tsk), ''-strip'', str_path temp_png] e
           = (Inr result, e1)"
    and "\<not> sanitize_failed result (filesystem e1) temp_png"
    and "subprocess_run
           [cjxl, str_path temp_png, str_path (t_target_path tsk), ''--effort'',
            str_int (effort s), ''--lossless_jpeg'', ''0'', ''-q'', str_int (quality s), ''--quiet'']
           e1
           = (Inl err, e2)"
  shows "conversion_worker_iteration (s, e)
           = (s\<lparr>conversion_queue := rest,
                status_queue := status_queue s @
                  [\<lparr>u_idx = t_idx tsk, u_status = SANITIZING, u_message = None,
                    u_size_before = None, u_size_after = None\<rparr>,
                   \<lparr>u_idx = t_idx tsk, u_status = CONVERTING, u_message = None,
                    u_size_before = None, u_size_after = None\<rparr>,
                   \<lparr>u_idx = t_idx tsk, u_status = FAILED,
                    u_message = Some (''Worker crash: '' @ error_name err),
                    u_size_before = None, u_size_after = None\<rparr>]\<rparr>,
              e2) \<and>
         (path_exists (filesystem e2) temp_png \<longrightarrow>
            path_exists (filesystem (snd (conversion_worker_iteration (s, e)))) temp_png)"
proof -
  have san: "sanitize_input (t_idx tsk) (files s ! t_idx tsk) (s\<lparr>conversion_queue := rest\<rparr>, e)
      = Inr (Source temp_png, update_status (t_idx tsk) SANITIZING None None None
               (s\<lparr>conversion_queue := rest\<rparr>), e1)"
    using assms(6,7,9,10,11)
    by (simp add: sanitize_input_def Let_def update_status_def)
  have enc: "encode True (files s ! t_idx tsk) temp_png (t_target_path tsk)
      (update_status (t_idx tsk) CONVERTING None None None
         (update_status (t_idx tsk) SANITIZING None None None (s\<lparr>conversion_queue := rest\<rparr>)), e1)
      = Inl (err, update_status (t_idx tsk) CONVERTING None None None
         (update_status (t_idx tsk) SANITIZING None None None (s\<lparr>conversion_queue := rest\<rparr>)), e2)"
    using assms(8,12)
    by (simp add: encode_def Let_def update_status_def)
  have "process_task tsk (s\<lparr>conversion_queue := rest\<rparr>, e)
      = Inl (err, update_status (t_idx tsk) CONVERTING None None None
         (update_status (t_idx tsk) SANITIZING None None None (s\<lparr>conversion_queue := rest\<rparr>)), e2)"
    using assms(4,5) san enc
    by (simp add: process_task_def Let_def)
  with assms(1,2,3) show ?thesis
    by (simp add: conversion_worker_iteration_def update_status_def assms(9))
qed

text \<open>
  A sanitize retry of \<^verbatim>\<open>a.jpg\<close> in the example session: the sanitizer writes the
  temporary file \<^verbatim>\<open>/tmp/sanitized_a.jpg.png\<close> and exits with 0; the encoder cannot be
  started. After the iteration of the worker the temporary file is still there.
\<close>

theorem temp_file_left_on_crash_witness:
  "\<not> path_exists (filesystem crash_env) [''tmp'', ''sanitized_a.jpg.png''] \<and>
   temp_png_of crash_env (files sanitize_tui ! 0) = [''tmp'', ''sanitized_a.jpg.png''] \<and>
   path_exists (filesystem (snd (conversion_worker_iteration (sanitize_tui, crash_env))))
     [''tmp'', ''sanitized_a.jpg.png''] \<and>
   status_queue (fst (conversion_worker_iteration (sanitize_tui, crash_env)))
     = [\<lparr>u_idx = 0, u_status = SANITIZING, u_message = None,
         u_size_before = None, u_size_after = None\<rparr>,
        \<lparr>u_idx = 0, u_status = CONVERTING, u_message = None,
         u_size_before = None, u_size_after = None\<rparr>,
        \<lparr>u_idx = 0, u_status = FAILED, u_message = Some ''Worker crash: FileNotFoundError'',
         u_size_before = None, u_size_after = None\<rparr>] \<and>
   invocations (snd (conversion_worker_iteration (sanitize_tui, crash_env)))
     = [[''/usr/bin/magick'', ''/pics/a.jpg'', ''-strip'', ''/tmp/sanitized_a.jpg.png''],
        [''/usr/bin/cjxl'', ''/tmp/sanitized_a.jpg.png'', ''/converted/a.jxl'', ''--effort'', ''7'',
         ''--lossless_jpeg'', ''0'', ''-q'', ''90'', ''--quiet'']]"
proof -
  let ?temp = "[''tmp'', ''sanitized_a.jpg.png'']"
  let ?fs1 = "example_fs\<lparr>nodes := (?temp, Node False 2000) # nodes example_fs\<rparr>"
  let ?magick = "[''/usr/bin/magick'', ''/pics/a.jpg'', ''-strip'', ''/tmp/sanitized_a.jpg.png'']"
  let ?cjxl = "[''/usr/bin/cjxl'', ''/tmp/sanitized_a.jpg.png'', ''/converted/a.jxl'', ''--effort'', ''7'',
         ''--lossless_jpeg'', ''0'', ''-q'', ''90'', ''--quiet'']"
  let ?e1 = "crash_env\<lparr>filesystem := ?fs1, invocations := [?magick]\<rparr>"
  let ?e2 = "crash_env\<lparr>filesystem := ?fs1, invocations := [?magick, ?cjxl]\<rparr>"
  have state: "conversion_thread_alive sanitize_tui" "\<not> stop_thread sanitize_tui"
    "conversion_queue sanitize_tui
       = [\<lparr>t_idx = 0, t_target_path = [''converted'', ''a.jxl''], t_sanitize = True\<rparr>]"
    "files sanitize_tui ! 0 = [''pics'', ''a.jpg'']" "0 < length (files sanitize_tui)"
    "imagemagick_cmd sanitize_tui = Some ''/usr/bin/magick''"
    "cjxl_cmd sanitize_tui = Some ''/usr/bin/cjxl''"
    "str_int (effort sanitize_tui) = ''7''" "str_int (quality sanitize_tui) = ''90''"
    by (simp_all add: sanitize_tui_def example_tui_eq str_int_def str_nat_small str_nat_big
        digit_char_def)
  have temp: "temp_png_of crash_env [''pics'', ''a.jpg''] = ?temp"
    by (simp add: temp_png_of_def crash_env_def example_env_def joinpath_def path_name_def)
  have before: "\<not> path_exists (filesystem crash_env) ?temp"
    by (simp add: crash_env_def example_env_def example_fs_def path_exists_def lookup_def)
  have run1: "subprocess_run ?magick crash_env = (Inr (Completed 0 []), ?e1)"
    by (simp add: subprocess_run_def crash_env_def example_env_def)
  have ok: "\<not> sanitize_failed (Completed 0 []) (filesystem ?e1) ?temp"
    by (simp add: sanitize_failed_def path_exists_def lookup_def stat_size_def)
  have run2: "subprocess_run ?cjxl ?e1 = (Inl FileNotFoundError, ?e2)"
    by (simp add: subprocess_run_def crash_env_def example_env_def)
  have there: "path_exists (filesystem ?e2) ?temp"
    by (simp add: path_exists_def lookup_def)
  have paths: "str_path [''pics'', ''a.jpg''] = ''/pics/a.jpg''"
    "str_path ?temp = ''/tmp/sanitized_a.jpg.png''"
    "str_path [''converted'', ''a.jxl''] = ''/converted/a.jxl''"
    by (simp_all add: str_path_def)
  from temp_file_left_on_crash [where s = sanitize_tui and e = crash_env
      and tsk = "\<lparr>t_idx = 0, t_target_path = [''converted'', ''a.jxl''], t_sanitize = True\<rparr>"
      and rest = "[]" and magick = "''/usr/bin/magick''" and cjxl = "''/usr/bin/cjxl''"
      and temp_png = ?temp and result = "Completed 0 []" and ?e1.0 = ?e1 and ?e2.0 = ?e2
      and err = FileNotFoundError]
    state temp run1 ok run2 there paths
  have "conversion_worker_iteration (sanitize_tui, crash_env)
      = (sanitize_tui\<lparr>conversion_queue := [],
           status_queue := status_queue sanitize_tui @
             [\<lparr>u_idx = 0, u_status = SANITIZING, u_message = None,
               u_size_before = None, u_size_after = None\<rparr>,
              \<lparr>u_idx = 0, u_status = CONVERTING, u_message = None,
               u_size_before = None, u_size_after = None\<rparr>,
              \<lparr>u_idx = 0, u_status = FAILED,
               u_message = Some (''Worker crash: '' @ error_name FileNotFoundError),
               u_size_before = None, u_size_after = None\<rparr>]\<rparr>, ?e2)"
    by simp
  moreover have "status_queue sanitize_tui = []"
    by (simp add: sanitize_tui_def example_tui_eq)
  ultimately show ?thesis
    using before temp state(4) there by (simp add: error_name_def)
qed

subsection \<open>The message of a failed encode step\<close>

lemma strip_empty_iff: "strip t = [] \<longleftrightarrow> (\<forall>c\<in>set t. isspace c)"
proof
  assume "strip t = []"
  then have "\<forall>c\<in>set (dropWhile isspace t). isspace c"
    by (simp add: strip_def dropWhile_eq_Nil_conv)
  then have "dropWhile isspace t = []"
    by (metis dropWhile_eq_Nil_conv dropWhile_idem)
  then show "\<forall>c\<in>set t. isspace c"
    by (simp add: dropWhile_eq_Nil_conv)
next
  assume "\<forall>c\<in>set t. isspace c"
  then have d: "dropWhile isspace t = []"
    by (simp add: dropWhile_eq_Nil_conv)
  show "strip t = []"
    unfolding strip_def d by simp
qed

lemma strip_last: "strip t \<noteq> [] \<Longrightarrow> \<not> isspace (last (strip t))"
proof -
  assume a: "strip t \<noteq> []"
  then have b: "dropWhile isspace (rev (dropWhile isspace t)) \<noteq> []"
    by (simp add: strip_def)
  have "last (strip t) = hd (dropWhile isspace (rev (dropWhile isspace t)))"
    using b by (simp add: strip_def last_rev)
  with b show ?thesis
    by (simp add: hd_dropWhile)
qed

lemma is_linebreak_isspace: "is_linebreak c \<Longrightarrow> isspace c"
  by (auto simp: is_linebreak_def isspace_def)

lemma splitlines_acc_last:
  "xs \<noteq> [] \<Longrightarrow> \<not> is_linebreak (last xs) \<Longrightarrow>
     splitlines_acc cur xs \<noteq> [] \<and> last (splitlines_acc cur xs) \<noteq> []"
proof (induction cur xs rule: splitlines_acc.induct)
  case (1 cur)
  then show ?case by simp
next
  case (2 cur c cs)
  show ?case
  proof (cases "is_linebreak c")
    case True
    with 2(3,4) have cs: "cs \<noteq> []" by auto
    with 2(4) have lcs: "\<not> is_linebreak (last cs)" by simp
    let ?rest = "if (of_char c :: nat) = 13 \<and> cs \<noteq> [] \<and> (of_char (hd cs) :: nat) = 10
                 then tl cs else cs"
    have "?rest \<noteq> [] \<and> \<not> is_linebreak (last ?rest)"
    proof (cases "(of_char c :: nat) = 13 \<and> cs \<noteq> [] \<and> (of_char (hd cs) :: nat) = 10")
      case False
      with cs lcs show ?thesis by auto
    next
      case t: True
      then have lb: "is_linebreak (hd cs)" by (simp add: is_linebreak_def)
      obtain d ds where d: "cs = d # ds" using cs by (cases cs) auto
      with lb lcs have "ds \<noteq> []" by auto
      with d lcs t show ?thesis by simp
    qed
    with 2(1) [OF True] have "splitlines_acc [] ?rest \<noteq> [] \<and> last (splitlines_acc [] ?rest) \<noteq> []"
      by blast
    with True show ?thesis by simp
  next
    case False
    show ?thesis
    proof (cases "cs = []")
      case True
      with False show ?thesis by simp
    next
      case n: False
      with 2(4) have "\<not> is_linebreak (last cs)" by simp
      with 2(2) [OF False n] False show ?thesis by simp
    qed
  qed
qed

lemma error_msg_line:
  assumes "\<exists>c\<in>set err_text. \<not> isspace c"
  shows "\<exists>l. error_msg err_text = Inr l \<and> l \<noteq> [] \<and> l = last (splitlines (strip err_text))"
proof -
  from assms have ne: "err_text \<noteq> []" by auto
  from assms have s: "strip err_text \<noteq> []" by (simp add: strip_empty_iff)
  then have "\<not> is_linebreak (last (strip err_text))"
    using strip_last is_linebreak_isspace by blast
  with s have l: "splitlines (strip err_text) \<noteq> [] \<and> last (splitlines (strip err_text)) \<noteq> []"
    unfolding splitlines_def by (rule splitlines_acc_last)
  then obtain x xs where x: "splitlines (strip err_text) = x # xs"
    by (cases "splitlines (strip err_text)") auto
  with l ne show ?thesis
    by (simp add: error_msg_def)
qed

lemma splitlines_Nil: "splitlines [] = []"
  by (simp add: splitlines_def)

text \<open>
  C6, as the code has it. An empty standard error gives the fallback text. A standard
  error with a character that is not whitespace gives the last line of the stripped text,
  which is not empty. A standard error that is not empty and holds only whitespace (a
  single newline, say) makes the index \<open>- 1\<close> raise \<^verbatim>\<open>IndexError\<close>: the failed encode step
  then ends in the exception, before the target file is removed, and no message of the
  encoder is recorded.
\<close>

theorem error_msg_cases:
  "(err_text = [] \<longrightarrow> error_msg err_text = Inr ''cjxl error'') \<and>
   ((\<exists>c\<in>set err_text. \<not> isspace c) \<longrightarrow>
      (\<exists>l. error_msg err_text = Inr l \<and> l \<noteq> [] \<and> l = last (splitlines (strip err_text)))) \<and>
   (err_text \<noteq> [] \<and> (\<forall>c\<in>set err_text. isspace c) \<longrightarrow>
      error_msg err_text = Inl IndexError \<and>
      (returncode result \<noteq> 0 \<and> stderr result = err_text \<longrightarrow>
         report idx False input_path input_path target result (s, e) = Inl (IndexError, s, e)))"
proof (intro conjI impI)
  assume "err_text = []"
  then show "error_msg err_text = Inr ''cjxl error''" by (simp add: error_msg_def)
next
  assume "\<exists>c\<in>set err_text. \<not> isspace c"
  then show "\<exists>l. error_msg err_text = Inr l \<and> l \<noteq> [] \<and> l = last (splitlines (strip err_text))"
    by (rule error_msg_line)
next
  assume a: "err_text \<noteq> [] \<and> (\<forall>c\<in>set err_text. isspace c)"
  then have "strip err_text = []" by (simp add: strip_empty_iff)
  with a show m: "error_msg err_text = Inl IndexError"
    by (simp add: error_msg_def splitlines_Nil)
  assume "returncode result \<noteq> 0 \<and> stderr result = err_text"
  with m show "report idx False input_path input_path target result (s, e) = Inl (IndexError, s, e)"
    by (simp add: report_def)
qed

text \<open>
  The encoder of the example session writes one newline to its standard error and exits
  with 1: the message recorded for \<^verbatim>\<open>a.png\<close> is that of the worker's exception handler.
\<close>

theorem error_msg_cases_witness:
  "error_msg [CHR 0x0A] = Inl IndexError \<and>
   report 1 False [''pics'', ''a.png''] [''pics'', ''a.png''] [''converted'', ''a-1.jxl'']
       (Completed 1 [CHR 0x0A]) (example_tui, newline_env)
     = Inl (IndexError, example_tui, newline_env) \<and>
   error_msg [] = Inr ''cjxl error'' \<and>
   error_msg ''a: b'' = Inr ''a: b'' \<and>
   status_queue
     (fst (conversion_worker_iteration
        (example_tui
           \<lparr>conversion_thread_alive := True,
            conversion_queue :=
              [\<lparr>t_idx = 1, t_target_path = [''converted'', ''a-1.jxl''], t_sanitize = False\<rparr>]\<rparr>,
         newline_env)))
     = [\<lparr>u_idx = 1, u_status = CONVERTING, u_message = None,
         u_size_before = None, u_size_after = None\<rparr>,
        \<lparr>u_idx = 1, u_status = FAILED, u_message = Some ''Worker crash: IndexError'',
         u_size_before = None, u_size_after = None\<rparr>]"
proof -
  have sp: "\<forall>c\<in>set [CHR 0x0A]. isspace c" by (simp add: isspace_def)
  have nsp: "\<exists>c\<in>set ''a: b''. \<not> isspace c" by (simp add: isspace_def)
  have a: "error_msg [CHR 0x0A] = Inl IndexError \<and>
   report 1 False [''pics'', ''a.png''] [''pics'', ''a.png''] [''converted'', ''a-1.jxl'']
       (Completed 1 [CHR 0x0A]) (example_tui, newline_env)
     = Inl (IndexError, example_tui, newline_env)"
    using error_msg_cases [where err_text = "[CHR 0x0A]" and result = "Completed 1 [CHR 0x0A]"
        and idx = 1 and input_path = "[''pics'', ''a.png'']"
        and target = "[''converted'', ''a-1.jxl'']" and s = example_tui and e = newline_env] sp
    by simp
  have b: "error_msg [] = Inr ''cjxl error''"
    using error_msg_cases [where err_text = "[]"] by simp
  have c: "error_msg ''a: b'' = Inr ''a: b''"
    using error_msg_cases [where err_text = "''a: b''"] nsp
    by (simp add: strip_def isspace_def splitlines_def is_linebreak_def)
  have d: "status_queue
     (fst (conversion_worker_iteration
        (example_tui
           \<lparr>conversion_thread_alive := True,
            conversion_queue :=
              [\<lparr>t_idx = 1, t_target_path = [''converted'', ''a-1.jxl''], t_sanitize = False\<rparr>]\<rparr>,
         newline_env)))
     = [\<lparr>u_idx = 1, u_status = CONVERTING, u_message = None,
         u_size_before = None, u_size_after = None\<rparr>,
        \<lparr>u_idx = 1, u_status = FAILED, u_message = Some ''Worker crash: IndexError'',
         u_size_before = None, u_size_after = None\<rparr>]"
    by (simp add: newline_env_def session_eval worker_eval)
  from a b c d show ?thesis by simp
qed

subsection \<open>What no operation of the program changes\<close>

text \<open>
  From a state \<open>s\<close> to a later state \<open>s'\<close>: the event \<^verbatim>\<open>stop_thread\<close> is set only if it was
  set before; a worker thread that is alive, with the event not set, stays alive;
  \<^verbatim>\<open>quality\<close> and \<^verbatim>\<open>effort\<close> are as they were, or in their ranges.
\<close>

definition evolves :: "tui \<Rightarrow> tui \<Rightarrow> bool" where
  "evolves s s' =
     ((stop_thread s' \<longrightarrow> stop_thread s) \<and>
      (conversion_thread_alive s \<and> \<not> stop_thread s \<longrightarrow> conversion_thread_alive s') \<and>
      (quality s' = quality s \<or> 1 \<le> quality s' \<and> quality s' \<le> 100) \<and>
      (effort s' = effort s \<or> 1 \<le> effort s' \<and> effort s' \<le> 9))"

lemma evolves_refl: "evolves s s"
  by (simp add: evolves_def)

lemma evolves_trans: "evolves a b \<Longrightarrow> evolves b c \<Longrightarrow> evolves a c"
  unfolding evolves_def by (elim conjE) (intro conjI; metis)

lemma evolves_same:
  "stop_thread s' = stop_thread s \<Longrightarrow> conversion_thread_alive s' = conversion_thread_alive s \<Longrightarrow>
   quality s' = quality s \<Longrightarrow> effort s' = effort s \<Longrightarrow> evolves s s'"
  by (simp add: evolves_def)

lemma evolves_statuses: "s' = s\<lparr>statuses := x\<rparr> \<Longrightarrow> evolves s s'"
  by (simp add: evolves_def)

lemma evolves_show_message: "evolves s (show_message m c s)"
  by (simp add: evolves_def show_message_def)

lemma evolves_update_status: "evolves s (update_status idx st m b a s)"
  by (simp add: evolves_def update_status_def)

lemma evolves_set_info_str: "evolves s (set_info_str idx t s)"
  by (simp add: evolves_def set_info_str_def split: option.splits)

lemma evolves_load_files: "evolves s (load_files s e)"
  by (simp add: evolves_def load_files_def show_message_def Let_def split: sum.splits)

lemma evolves_adjust_scroll: "evolves s (adjust_scroll m s)"
  by (simp add: evolves_def adjust_scroll_def Let_def)

lemma evolves_start_worker: "evolves s (start_worker s)"
  by (simp add: evolves_def start_worker_def)

lemma evolves_build_tasks:
  "build_tasks b idxs s fs ex tasks = Inr (tasks', s', fs') \<Longrightarrow> evolves s s'"
  "build_tasks b idxs s fs ex tasks = Inl (err, s', fs') \<Longrightarrow> evolves s s'"
  by (blast intro: evolves_statuses dest: build_tasks_state build_tasks_state_Inl)+

lemma evolves_enqueue_tasks:
  "(enqueue_tasks tasks s = Inr s' \<longrightarrow> evolves s s') \<and>
   (enqueue_tasks tasks s = Inl (err, s') \<longrightarrow> evolves s s')"
proof (induction tasks arbitrary: s)
  case Nil
  then show ?case by (simp add: evolves_refl)
next
  case (Cons t ts)
  show ?case
  proof (cases "statuses s (t_idx t)")
    case None
    then show ?thesis by (auto simp: Let_def evolves_def)
  next
    case (Some r)
    let ?s2 = "s\<lparr>conversion_queue := conversion_queue s @ [t],
                  statuses := (statuses s)(t_idx t \<mapsto> r\<lparr>status := QUEUED\<rparr>),
                  failed_indices := failed_indices s - {t_idx t}\<rparr>"
    have step: "enqueue_tasks (t # ts) s = enqueue_tasks ts ?s2"
      using Some by (simp add: Let_def)
    have "evolves s ?s2" by (simp add: evolves_def)
    with Cons [of ?s2] step show ?thesis
      by (auto intro: evolves_trans)
  qed
qed

lemma evolves_start_conversion_session:
  "pred_outcome (\<lambda>r. evolves s (fst r)) (start_conversion_session b (s, e))"
proof (cases "is_converting s \<or> selected s = {} \<or> \<not> truthy (cjxl_cmd s)")
  case True
  then show ?thesis
    by (auto simp: start_conversion_session_def evolves_show_message)
next
  case guards: False
  show ?thesis
  proof (cases "if delete_originals s \<and> \<not> b then confirmation_dialog_run (keys e)
                else Some (True, keys e)")
    case None
    with guards show ?thesis by (simp add: start_conversion_session_def)
  next
    case (Some pk)
    obtain proceed ks where pk: "pk = (proceed, ks)" by (cases pk)
    show ?thesis
    proof (cases proceed)
      case False
      with guards Some pk show ?thesis
        by (simp add: start_conversion_session_def Let_def evolves_show_message)
    next
      case True
      let ?e1 = "e\<lparr>keys := ks\<rparr>"
      show ?thesis
      proof (cases "build_tasks b (sorted_list_of_set (selected s)) s (filesystem ?e1) [] []")
        case (Inl failure)
        obtain err s1 fs' where f: "failure = (err, s1, fs')" by (cases failure)
        with Inl have "evolves s s1" using evolves_build_tasks(2) by blast
        with guards Some pk True Inl f show ?thesis
          by (simp add: start_conversion_session_def Let_def)
      next
        case (Inr built)
        obtain tasks s1 fs' where t: "built = (tasks, s1, fs')" by (cases built)
        with Inr have e1: "evolves s s1" using evolves_build_tasks(1) by blast
        let ?s2 = "if \<not> b then
                     s1\<lparr>is_converting := True, start_time := now ?e1,
                        conversions_success := 0, conversions_failed := 0,
                        total_bytes_before := 0, total_bytes_after := 0\<rparr>
                   else s1"
        have "evolves s1 ?s2" by (simp add: evolves_def)
        with e1 have e2: "evolves s ?s2" by (rule evolves_trans)
        show ?thesis
        proof (cases "enqueue_tasks tasks ?s2")
          case l: (Inl failure)
          obtain err s3 where f: "failure = (err, s3)" by (cases failure)
          with l evolves_enqueue_tasks [where tasks = tasks and s = ?s2 and err = err and s' = s3] have "evolves ?s2 s3" by simp
          with e2 have "evolves s s3" by (rule evolves_trans)
          with guards Some pk True Inr t l f show ?thesis
            by (simp add: start_conversion_session_def Let_def)
        next
          case r: (Inr s3)
          with evolves_enqueue_tasks [where tasks = tasks and s = ?s2 and s' = s3] have "evolves ?s2 s3" by simp
          with e2 have "evolves s s3" by (rule evolves_trans)
          then have "evolves s (start_worker s3)"
            using evolves_start_worker evolves_trans by blast
          with guards Some pk True Inr t r show ?thesis
            by (simp add: start_conversion_session_def Let_def)
        qed
      qed
    qed
  qed
qed

lemma pred_outcome_mono:
  "pred_outcome P r \<Longrightarrow> (\<And>x. P x \<Longrightarrow> Q x) \<Longrightarrow> pred_outcome Q r"
  by (cases r) auto

lemma evolves_prompt_for_sanitize:
  "pred_outcome (\<lambda>r. evolves s (fst r)) (prompt_for_sanitize (s, e))"
proof (cases "truthy (imagemagick_cmd s)")
  case False
  then show ?thesis by (simp add: prompt_for_sanitize_def evolves_show_message)
next
  case True
  show ?thesis
  proof (cases "confirmation_dialog_run (keys e)")
    case None
    with True show ?thesis by (simp add: prompt_for_sanitize_def)
  next
    case (Some yk)
    obtain yes ks where yk: "yk = (yes, ks)" by (cases yk)
    show ?thesis
    proof (cases yes)
      case False
      with True Some yk show ?thesis by (simp add: prompt_for_sanitize_def evolves_refl)
    next
      case y: True
      let ?s1 = "(show_message ''Re-queueing failed files for sanitized conversion...'' 5 s)
                    \<lparr>selected := failed_indices s\<rparr>"
      have a: "evolves s ?s1" by (simp add: evolves_def show_message_def)
      have "pred_outcome (\<lambda>r. evolves ?s1 (fst r))
              (start_conversion_session True (?s1, e\<lparr>keys := ks\<rparr>))"
        by (rule evolves_start_conversion_session)
      then have "pred_outcome (\<lambda>r. evolves s (fst r))
              (start_conversion_session True (?s1, e\<lparr>keys := ks\<rparr>))"
        by (rule pred_outcome_mono) (blast intro: evolves_trans [OF a])
      with True Some yk y show ?thesis by (simp add: prompt_for_sanitize_def)
    qed
  qed
qed

lemma evolves_apply_update: "pred_outcome (evolves s) (apply_update update s)"
  by (simp add: apply_update_def Let_def evolves_def set_info_str_def
      split: option.splits sum.splits)

lemma evolves_drain: "evolves s0 s \<Longrightarrow> pred_outcome (evolves s0) (drain q s)"
proof (induction q arbitrary: s)
  case Nil
  then show ?case by simp
next
  case (Cons update rest)
  have a: "evolves s0 (s\<lparr>status_queue := rest\<rparr>)"
    using Cons.prems by (simp add: evolves_def)
  have b: "pred_outcome (evolves (s\<lparr>status_queue := rest\<rparr>))
             (apply_update update (s\<lparr>status_queue := rest\<rparr>))"
    by (rule evolves_apply_update)
  show ?case
  proof (cases "apply_update update (s\<lparr>status_queue := rest\<rparr>)")
    case (Returned s')
    with a b have "evolves s0 s'" using evolves_trans by auto
    from Cons.IH [OF this] Returned show ?thesis by simp
  next
    case (Raised err s')
    with a b have "evolves s0 s'" using evolves_trans by auto
    with Raised show ?thesis by simp
  next
    case Blocked
    then show ?thesis by simp
  qed
qed

lemma evolves_finish_batch: "pred_outcome (\<lambda>r. evolves s (snd r)) (finish_batch s e)"
  by (simp add: finish_batch_def Let_def evolves_def show_message_def split: sum.splits)

lemma evolves_process_status_queue:
  "pred_outcome (\<lambda>r. evolves s (fst r)) (process_status_queue (s, e))"
proof (cases "drain (status_queue s) s")
  case Blocked
  then show ?thesis by (simp add: process_status_queue_def)
next
  case (Raised err s1)
  with evolves_drain [OF evolves_refl, of s "status_queue s"] show ?thesis
    by (simp add: process_status_queue_def)
next
  case (Returned s1)
  with evolves_drain [OF evolves_refl, of s "status_queue s"] have a: "evolves s s1" by simp
  have b: "pred_outcome (\<lambda>r. evolves s1 (snd r)) (finish_batch s1 e)"
    by (rule evolves_finish_batch)
  show ?thesis
  proof (cases "finish_batch s1 e")
    case Blocked
    with Returned show ?thesis by (simp add: process_status_queue_def)
  next
    case (Raised err r)
    obtain j s2 where r: "r = (j, s2)" by (cases r)
    with a b Raised have "evolves s s2" using evolves_trans by auto
    with Returned Raised r show ?thesis by (simp add: process_status_queue_def)
  next
    case r: (Returned r)
    obtain j s2 where r2: "r = (j, s2)" by (cases r)
    with a b r have c: "evolves s s2" using evolves_trans by auto
    have "pred_outcome (\<lambda>r. evolves s2 (fst r)) (prompt_for_sanitize (s2, e))"
      by (rule evolves_prompt_for_sanitize)
    then have "pred_outcome (\<lambda>r. evolves s (fst r)) (prompt_for_sanitize (s2, e))"
      by (rule pred_outcome_mono) (blast intro: evolves_trans [OF c])
    with Returned r r2 c show ?thesis by (simp add: process_status_queue_def)
  qed
qed

lemma evolves_sanitize_input:
  "sanitize_input idx p (s, e) = Inr (r, s', e') \<Longrightarrow> evolves s s'"
  "sanitize_input idx p (s, e) = Inl (err, s', e') \<Longrightarrow> evolves s s'"
  by (auto simp: sanitize_input_def Let_def evolves_def update_status_def
      split: option.splits if_splits prod.splits sum.splits)

lemma encode_state:
  "encode u i src t (s, e) = Inr (r, s', e') \<Longrightarrow> s' = s"
  "encode u i src t (s, e) = Inl (err, s', e') \<Longrightarrow> s' = s"
  by (auto simp: encode_def Let_def split: option.splits if_splits prod.splits sum.splits)

lemma evolves_report:
  "report idx u i src t result (s, e) = Inr (s', e') \<Longrightarrow> evolves s s'"
  "report idx u i src t result (s, e) = Inl (err, s', e') \<Longrightarrow> evolves s s'"
  by (auto simp: report_def Let_def evolves_def update_status_def
      split: option.splits if_splits prod.splits sum.splits)

lemma evolves_process_task:
  "(process_task tsk (s, e) = Inr (s', e') \<longrightarrow> evolves s s') \<and>
   (process_task tsk (s, e) = Inl (err, s', e') \<longrightarrow> evolves s s')"
proof (cases "length (files s) \<le> t_idx tsk")
  case True
  then show ?thesis by (auto simp: process_task_def Let_def evolves_refl)
next
  case False
  let ?idx = "t_idx tsk"
  let ?input = "files s ! ?idx"
  let ?x = "if t_sanitize tsk then sanitize_input ?idx ?input (s, e)
            else Inr (Source ?input, s, e)"
  have x: "?x = Inr (r, s1, e1) \<Longrightarrow> evolves s s1" "?x = Inl (err1, s1, e1) \<Longrightarrow> evolves s s1"
    for r s1 e1 err1
    using evolves_sanitize_input [of ?idx ?input s e]
    by (auto simp: evolves_refl split: if_splits)
  show ?thesis
  proof (cases ?x)
    case (Inl failure)
    obtain err1 s1 e1 where f: "failure = (err1, s1, e1)" by (cases failure)
    with Inl x(2) have "evolves s s1" by blast
    with False Inl f show ?thesis by (auto simp: process_task_def Let_def)
  next
    case (Inr step)
    obtain r s1 e1 where st: "step = (r, s1, e1)" by (cases step)
    with Inr x(1) have a: "evolves s s1" by blast
    show ?thesis
    proof (cases r)
      case Skip
      with False Inr st a show ?thesis by (auto simp: process_task_def Let_def)
    next
      case (Source src)
      let ?s2 = "update_status ?idx CONVERTING None None None s1"
      have b: "evolves s ?s2"
        using a evolves_update_status evolves_trans by blast
      show ?thesis
      proof (cases "encode (t_sanitize tsk) ?input src (t_target_path tsk) (?s2, e1)")
        case l: (Inl failure)
        obtain err2 s3 e3 where f: "failure = (err2, s3, e3)" by (cases failure)
        with l encode_state(2) have "s3 = ?s2" by blast
        with False Inr st Source l f b show ?thesis by (auto simp: process_task_def Let_def)
      next
        case r2: (Inr encoded)
        obtain result s3 e3 where en: "encoded = (result, s3, e3)" by (cases encoded)
        with r2 encode_state(1) have s3: "s3 = ?s2" by blast
        have "report ?idx (t_sanitize tsk) ?input src (t_target_path tsk) result (?s2, e3)
                = Inr (s', e') \<Longrightarrow> evolves s s'"
          using evolves_report(1) b evolves_trans by blast
        moreover have "report ?idx (t_sanitize tsk) ?input src (t_target_path tsk) result (?s2, e3)
                = Inl (err, s', e') \<Longrightarrow> evolves s s'"
          using evolves_report(2) b evolves_trans by blast
        ultimately show ?thesis
          using False Inr st Source r2 en s3 by (auto simp: process_task_def Let_def)
      qed
    qed
  qed
qed

lemma evolves_conversion_worker_iteration:
  "evolves s (fst (conversion_worker_iteration (s, e)))"
proof (cases "\<not> conversion_thread_alive s \<or> stop_thread s \<or> conversion_queue s = []")
  case True
  then show ?thesis
    by (auto simp: conversion_worker_iteration_def evolves_def split: list.splits)
next
  case False
  then obtain tsk rest where q: "conversion_queue s = tsk # rest"
    by (cases "conversion_queue s") auto
  let ?s1 = "s\<lparr>conversion_queue := rest\<rparr>"
  have a: "evolves s ?s1" by (simp add: evolves_def)
  show ?thesis
  proof (cases "process_task tsk (?s1, e)")
    case (Inr finished)
    obtain s' e' where d: "finished = (s', e')" by (cases finished)
    with Inr evolves_process_task [of tsk ?s1 e s' e'] have "evolves ?s1 s'" by simp
    with a have "evolves s s'" by (rule evolves_trans)
    with False q Inr d show ?thesis by (simp add: conversion_worker_iteration_def)
  next
    case (Inl failure)
    obtain err s' e' where f: "failure = (err, s', e')" by (cases failure)
    with Inl evolves_process_task [where tsk = tsk and s = ?s1 and e = e and s' = s'
        and e' = e' and err = err]
    have "evolves ?s1 s'" by simp
    with a have "evolves s s'" by (rule evolves_trans)
    then have "evolves s (update_status (t_idx tsk) FAILED
                 (Some (''Worker crash: '' @ error_name err)) None None s')"
      using evolves_update_status evolves_trans by blast
    with False q Inl f show ?thesis by (simp add: conversion_worker_iteration_def)
  qed
qed

lemma evolves_conversion_worker:
  "evolves s0 s \<Longrightarrow> evolves s0 (fst (conversion_worker n (s, e)))"
proof (induction n arbitrary: s e)
  case 0
  then show ?case by simp
next
  case (Suc n)
  obtain s1 e1 where it: "conversion_worker_iteration (s, e) = (s1, e1)"
    by (cases "conversion_worker_iteration (s, e)")
  with evolves_conversion_worker_iteration [of s e] have "evolves s s1" by simp
  with Suc.prems have "evolves s0 s1" by (rule evolves_trans)
  from Suc.IH [OF this, of e1] it show ?case by simp
qed

lemma evolves_set_quality: "pred_outcome (\<lambda>r. evolves s (fst r)) (set_quality (s, e))"
  by (auto simp: set_quality_def Let_def evolves_def show_message_def
      split: option.splits sum.splits)

lemma evolves_set_effort: "pred_outcome (\<lambda>r. evolves s (fst r)) (set_effort (s, e))"
  by (auto simp: set_effort_def Let_def evolves_def show_message_def
      split: option.splits sum.splits)

lemma evolves_set_output_dir: "pred_outcome (\<lambda>r. evolves s (fst r)) (set_output_dir (s, e))"
  by (auto simp: set_output_dir_def Let_def evolves_def show_message_def
      split: option.splits sum.splits)

lemma evolves_after:
  "evolves s s1 \<Longrightarrow> pred_outcome (\<lambda>r. evolves s1 (fst r)) x \<Longrightarrow>
     pred_outcome (\<lambda>r. evolves s (fst r)) x"
  by (erule pred_outcome_mono) (blast intro: evolves_trans)

lemma handle_input_scroll:
  "pred_outcome (\<lambda>r. evolves s (fst r)) x \<Longrightarrow>
     pred_outcome (\<lambda>r. evolves s (fst r))
       (case x of Returned (s1, e1) \<Rightarrow> Returned (adjust_scroll m s1, e1)
        | Raised err se1 \<Rightarrow> Raised err se1 | Blocked \<Rightarrow> Blocked)"
  by (cases x) (auto intro: evolves_trans [OF _ evolves_adjust_scroll])

lemma evolves_frame:
  "evolves s (s'\<lparr>current_row := a\<rparr>) = evolves s s'"
  "evolves s (s'\<lparr>scroll_offset := b\<rparr>) = evolves s s'"
  "evolves s (s'\<lparr>selected := c\<rparr>) = evolves s s'"
  "evolves s (s'\<lparr>show_only_failed := d\<rparr>) = evolves s s'"
  "evolves s (s'\<lparr>delete_originals := f\<rparr>) = evolves s s'"
  "evolves s (s'\<lparr>status_message := g\<rparr>) = evolves s s'"
  "evolves s (s'\<lparr>debug_enabled := h\<rparr>) = evolves s s'"
  "evolves s (s'\<lparr>recursive := i\<rparr>) = evolves s s'"
  by (simp_all add: evolves_def)

lemma outcome_ifI:
  "pred_outcome P a \<Longrightarrow> pred_outcome P b \<Longrightarrow> pred_outcome P (if c then a else b)"
  by simp

lemma evolves_handle_input:
  "pred_outcome (\<lambda>r. evolves s (fst r)) (handle_input key visible_files (s, e))"
proof -
  let ?s = "s\<lparr>status_message := []\<rparr>"
  have a: "evolves s ?s" by (simp add: evolves_def)
  have calls:
    "pred_outcome (\<lambda>r. evolves s (fst r)) (start_conversion_session False (?s, e))"
    "pred_outcome (\<lambda>r. evolves s (fst r)) (set_quality (?s, e))"
    "pred_outcome (\<lambda>r. evolves s (fst r)) (set_effort (?s, e))"
    "pred_outcome (\<lambda>r. evolves s (fst r)) (set_output_dir (?s, e))"
    using evolves_after [OF a] evolves_start_conversion_session evolves_set_quality
      evolves_set_effort evolves_set_output_dir by blast+
  have loads: "evolves s (load_files ?s e)" "evolves s (load_files (?s\<lparr>recursive := r\<rparr>) e)" for r
    using evolves_load_files [of ?s e] evolves_load_files [of "?s\<lparr>recursive := r\<rparr>" e]
    by (simp_all add: evolves_def)
  have msg: "evolves s (show_message m c (?s\<lparr>debug_enabled := d\<rparr>))" for m c d
    by (simp add: evolves_def show_message_def)
  show ?thesis
    unfolding handle_input_def Let_def prod.case
    apply (rule handle_input_scroll)
    apply (intro outcome_ifI)
    apply (simp_all add: calls loads msg evolves_frame evolves_refl split: sum.split prod.split)
    done
qed

lemma evolves_process_key:
  "pred_outcome (\<lambda>r. evolves s (fst (snd r))) (process_key key (s, e))"
proof (cases "key \<in> {27, ord (CHR ''q'')} \<and> \<not> is_converting s")
  case True
  then show ?thesis by (simp add: process_key_def evolves_refl)
next
  case False
  show ?thesis
  proof (cases "if key \<in> {27, ord (CHR ''q'')} \<and> is_converting s
                then confirmation_dialog_run (keys e) else Some (False, keys e)")
    case None
    with False show ?thesis by (simp add: process_key_def evolves_refl)
  next
    case (Some qk)
    obtain quit ks where qk: "qk = (quit, ks)" by (cases qk)
    show ?thesis
    proof (cases quit)
      case True
      with False Some qk show ?thesis by (simp add: process_key_def evolves_refl)
    next
      case nq: False
      show ?thesis
      proof (cases "get_visible_files s")
        case (Inl err)
        with False Some qk nq show ?thesis by (simp add: process_key_def evolves_refl)
      next
        case (Inr visible)
        have "pred_outcome (\<lambda>r. evolves s (fst r)) (handle_input key visible (s, e\<lparr>keys := ks\<rparr>))"
          by (rule evolves_handle_input)
        then have "pred_outcome (\<lambda>r. evolves s (fst (snd r)))
           (case handle_input key visible (s, e\<lparr>keys := ks\<rparr>) of
              Returned se1 \<Rightarrow> Returned (False, se1)
            | Raised err se1 \<Rightarrow> Raised err (False, se1)
            | Blocked \<Rightarrow> Blocked)"
          by (cases "handle_input key visible (s, e\<lparr>keys := ks\<rparr>)") auto
        with False Some qk nq Inr show ?thesis by (simp add: process_key_def evolves_refl)
      qed
    qed
  qed
qed

lemma evolves_process_keys:
  "evolves s0 s \<Longrightarrow> pred_outcome (\<lambda>r. evolves s0 (fst (snd r))) (process_keys ks (s, e))"
proof (induction ks arbitrary: s e)
  case Nil
  then show ?case by simp
next
  case (Cons key rest)
  have a: "pred_outcome (\<lambda>r. evolves s (fst (snd r))) (process_key key (s, e))"
    by (rule evolves_process_key)
  show ?case
  proof (cases "process_key key (s, e)")
    case Blocked
    then show ?thesis by simp
  next
    case (Raised err r)
    with a have "evolves s (fst (snd r))" by simp
    with Cons.prems have "evolves s0 (fst (snd r))" by (rule evolves_trans)
    with Raised show ?thesis by simp
  next
    case (Returned r)
    obtain quit s1 e1 where r: "r = (quit, s1, e1)" by (cases r)
    with a Returned have "evolves s s1" by simp
    with Cons.prems have b: "evolves s0 s1" by (rule evolves_trans)
    from Cons.IH [OF b, of e1] b Returned r show ?thesis by simp
  qed
qed

lemma evolves_clamp_row:
  "clamp_row s = Inr s' \<Longrightarrow> evolves s s'"
  "clamp_row s = Inl (err, s') \<Longrightarrow> evolves s s'"
  by (auto simp: clamp_row_def evolves_def split: sum.splits if_splits)

lemma evolves_tick: "pred_outcome (\<lambda>r. evolves s (fst (snd r))) (tick (s, e))"
proof -
  obtain sw ew where w:
    "(case worker_schedule e of [] \<Rightarrow> (s, e)
      | k # rest \<Rightarrow> conversion_worker k (s, e\<lparr>worker_schedule := rest\<rparr>)) = (sw, ew)"
    by (cases "case worker_schedule e of [] \<Rightarrow> (s, e)
      | k # rest \<Rightarrow> conversion_worker k (s, e\<lparr>worker_schedule := rest\<rparr>)")
  have a: "evolves s sw"
  proof (cases "worker_schedule e")
    case Nil
    with w show ?thesis by (simp add: evolves_refl)
  next
    case (Cons k rest)
    with w evolves_conversion_worker [OF evolves_refl, of s k "e\<lparr>worker_schedule := rest\<rparr>"]
    show ?thesis by simp
  qed
  let ?pressed = "takeWhile (\<lambda>k. k \<noteq> - 1) (keys ew)"
  let ?e1 = "ew\<lparr>keys := drop 1 (dropWhile (\<lambda>k. k \<noteq> - 1) (keys ew))\<rparr>"
  let ?s1 = "if ?pressed \<noteq> [] then sw\<lparr>last_conversion_summary := []\<rparr> else sw"
  let ?ks = "filter (\<lambda>k. \<not> is_nav_key k) ?pressed
              @ (if filter is_nav_key ?pressed = [] then [] else [last (filter is_nav_key ?pressed)])"
  have "evolves sw ?s1" by (simp add: evolves_def)
  with a have b: "evolves s ?s1" by (rule evolves_trans)
  have c: "pred_outcome (\<lambda>r. evolves s (fst (snd r))) (process_keys ?ks (?s1, ?e1))"
    using b by (rule evolves_process_keys)
  have t: "tick (s, e) =
      (case process_keys ?ks (?s1, ?e1) of
         Blocked \<Rightarrow> Blocked
       | Raised err r \<Rightarrow> Raised err r
       | Returned (quit, s2, e2) \<Rightarrow>
           if quit then Returned (True, s2, e2)
           else
             (case process_status_queue (s2, e2) of
                Blocked \<Rightarrow> Blocked
              | Raised err se3 \<Rightarrow> Raised err (False, se3)
              | Returned (s3, e3) \<Rightarrow>
                  (case clamp_row s3 of
                     Inl (err, s4) \<Rightarrow> Raised err (False, s4, e3)
                   | Inr s4 \<Rightarrow> Returned (False, s4, e3))))"
    using w by (simp add: tick_def Let_def)
  show ?thesis
  proof (cases "process_keys ?ks (?s1, ?e1)")
    case Blocked
    with t show ?thesis by simp
  next
    case (Raised err r)
    with t c show ?thesis by simp
  next
    case (Returned r)
    obtain quit s2 e2 where r: "r = (quit, s2, e2)" by (cases r)
    with c Returned have d: "evolves s s2" by simp
    show ?thesis
    proof (cases quit)
      case True
      with t Returned r d show ?thesis by simp
    next
      case nq: False
      have p: "pred_outcome (\<lambda>r. evolves s (fst r)) (process_status_queue (s2, e2))"
        using d evolves_process_status_queue by (rule evolves_after)
      show ?thesis
      proof (cases "process_status_queue (s2, e2)")
        case Blocked
        with t Returned r nq show ?thesis by simp
      next
        case (Raised err se3)
        with t Returned r nq p show ?thesis by simp
      next
        case q: (Returned se3)
        obtain s3 e3 where se3: "se3 = (s3, e3)" by (cases se3)
        with p q have f: "evolves s s3" by simp
        show ?thesis
        proof (cases "clamp_row s3")
          case (Inl failure)
          obtain err s4 where fl: "failure = (err, s4)" by (cases failure)
          with Inl evolves_clamp_row(2) have "evolves s3 s4" by blast
          with f have "evolves s s4" by (rule evolves_trans)
          with t Returned r nq q se3 Inl fl show ?thesis by simp
        next
          case (Inr s4)
          with evolves_clamp_row(1) have "evolves s3 s4" by blast
          with f have "evolves s s4" by (rule evolves_trans)
          with t Returned r nq q se3 Inr show ?thesis by simp
        qed
      qed
    qed
  qed
qed

lemma evolves_ticks: "pred_outcome (\<lambda>r. evolves s (fst (snd r))) (ticks n (s, e))"
proof (induction n)
  case 0
  then show ?case by (simp add: evolves_refl)
next
  case (Suc n)
  show ?case
  proof (cases "ticks n (s, e)")
    case Blocked
    then show ?thesis by simp
  next
    case (Raised err r)
    with Suc show ?thesis by simp
  next
    case (Returned r)
    obtain quit s1 e1 where r: "r = (quit, s1, e1)" by (cases r)
    with Suc Returned have a: "evolves s s1" by simp
    have "pred_outcome (\<lambda>r. evolves s1 (fst (snd r))) (tick (s1, e1))"
      by (rule evolves_tick)
    then have "pred_outcome (\<lambda>r. evolves s (fst (snd r))) (tick (s1, e1))"
      by (rule pred_outcome_mono) (blast intro: evolves_trans [OF a])
    with Returned r a show ?thesis by simp
  qed
qed

lemma evolves_run_loop:
  "evolves s0 s \<Longrightarrow> pred_outcome (\<lambda>r. evolves s0 (fst r)) (run_loop n (s, e))"
proof (induction n arbitrary: s e)
  case 0
  then show ?case by simp
next
  case (Suc n)
  have a: "pred_outcome (\<lambda>r. evolves s (fst (snd r))) (tick (s, e))"
    by (rule evolves_tick)
  show ?case
  proof (cases "tick (s, e)")
    case Blocked
    then show ?thesis by simp
  next
    case (Raised err r)
    obtain quit s1 e1 where r: "r = (quit, s1, e1)" by (cases r)
    with a Raised have "evolves s s1" by simp
    with Suc.prems have "evolves s0 s1" by (rule evolves_trans)
    with Raised r show ?thesis by simp
  next
    case (Returned r)
    obtain quit s1 e1 where r: "r = (quit, s1, e1)" by (cases r)
    with a Returned have "evolves s s1" by simp
    with Suc.prems have b: "evolves s0 s1" by (rule evolves_trans)
    from Suc.IH [OF b, of e1] b Returned r show ?thesis by simp
  qed
qed

lemma evolves_run: "pred_outcome (\<lambda>r. evolves s (fst r)) (run n (s, e))"
proof -
  have "evolves s (show_message ''FATAL: cjxl not found in PATH. Install libjxl-tools.'' 4 s)"
    by (rule evolves_show_message)
  then show ?thesis
    by (simp add: run_def evolves_run_loop evolves_refl)
qed

subsection \<open>Leaving the main loop\<close>

text \<open>
  C8, as the code has it. \<^verbatim>\<open>run\<close> is left only by the \<^verbatim>\<open>return\<close> statements inside
  \<^verbatim>\<open>while True\<close>, so the two statements after the loop, \<^verbatim>\<open>self.stop_thread.set()\<close> and the
  \<^verbatim>\<open>join\<close>, are never executed. Whenever \<^verbatim>\<open>run\<close> returns, the event is not set (it was not
  set when \<^verbatim>\<open>run\<close> began, and nothing sets it), and a worker thread that was alive is still
  alive: it was neither told to stop nor joined.
\<close>

theorem run_returns_without_shutdown:
  "run n (s, e) = Returned (s', e') \<and> \<not> stop_thread s \<longrightarrow>
     \<not> stop_thread s' \<and> (conversion_thread_alive s \<longrightarrow> conversion_thread_alive s')"
proof
  assume a: "run n (s, e) = Returned (s', e') \<and> \<not> stop_thread s"
  with evolves_run [of s n e] have "evolves s s'" by simp
  with a show "\<not> stop_thread s' \<and> (conversion_thread_alive s \<longrightarrow> conversion_thread_alive s')"
    by (simp add: evolves_def)
qed

text \<open>
  In the example session with both tasks queued and the worker running, the user presses
  \<^verbatim>\<open>q\<close> and confirms with \<^verbatim>\<open>y\<close>: \<^verbatim>\<open>run\<close> returns with the event not set, the thread alive and
  both tasks still on the queue. Without a conversion, \<^verbatim>\<open>q\<close> alone returns the same way.
\<close>

theorem run_returns_without_shutdown_witness:
  "run (Suc 0) (queued_tui, queued_env\<lparr>keys := [113, - 1, 121], worker_schedule := []\<rparr>)
     = Returned (queued_tui, queued_env\<lparr>keys := [], worker_schedule := []\<rparr>) \<and>
   \<not> stop_thread queued_tui \<and>
   conversion_thread_alive queued_tui \<and>
   length (conversion_queue queued_tui) = 2 \<and>
   run (Suc 0) (example_tui, example_env\<lparr>keys := [113]\<rparr>)
     = Returned (example_tui, example_env) \<and>
   \<not> stop_thread example_tui"
proof -
  have r: "run (Suc 0) (queued_tui, queued_env\<lparr>keys := [113, - 1, 121], worker_schedule := []\<rparr>)
     = Returned (queued_tui, queued_env\<lparr>keys := [], worker_schedule := []\<rparr>)"
    by (simp add: run_def tick_def process_key_def is_nav_key_def ord_def KEY_UP_def KEY_DOWN_def
        KEY_PPAGE_def KEY_NPAGE_def queued_tui_def queued_env_def batch_env_def example_env_def
        example_tui_eq truthy_def)
  have q: "run (Suc 0) (example_tui, example_env\<lparr>keys := [113]\<rparr>)
     = Returned (example_tui, example_env)"
    by (simp add: run_def tick_def process_key_def is_nav_key_def ord_def KEY_UP_def KEY_DOWN_def
        KEY_PPAGE_def KEY_NPAGE_def example_env_def example_tui_eq truthy_def)
  have st: "\<not> stop_thread queued_tui" "conversion_thread_alive queued_tui"
    "length (conversion_queue queued_tui) = 2" "\<not> stop_thread example_tui"
    by (simp_all add: queued_tui_def example_tui_eq)
  from run_returns_without_shutdown [of "Suc 0" queued_tui
      "queued_env\<lparr>keys := [113, - 1, 121], worker_schedule := []\<rparr>" queued_tui
      "queued_env\<lparr>keys := [], worker_schedule := []\<rparr>"] r st(1,2)
  have "\<not> stop_thread queued_tui \<and> conversion_thread_alive queued_tui" by simp
  with r q st show ?thesis by simp
qed

subsection \<open>Quality and effort\<close>

text \<open>
  C9. \<^verbatim>\<open>__init__\<close> sets quality 90 and effort 7. From a state with both in range, any
  number of iterations of the main loop, on any keys and with any work of the worker
  thread between them, ends (by returning or by raising) in a state with both in range.
  \<^verbatim>\<open>set_quality\<close> leaves the effort alone, and changes the quality only when the dialog
  returns a non-empty string of ASCII digits whose value lies between 1 and 100, to that
  value; on such a string (of at most 4300 digits, the default limit of \<^verbatim>\<open>int()\<close> in recent
  versions of Python) it does change it. The same holds for \<^verbatim>\<open>set_effort\<close>, between 1 and 9.
\<close>

theorem settings_stay_in_range:
  "quality (init dir cwd cjxl magick e0) = 90 \<and> effort (init dir cwd cjxl magick e0) = 7 \<and>
   (1 \<le> quality s \<and> quality s \<le> 100 \<and> 1 \<le> effort s \<and> effort s \<le> 9 \<and>
    (ticks n (s, e) = Returned (quit, s', e') \<or> ticks n (s, e) = Raised err (quit, s', e')) \<longrightarrow>
      1 \<le> quality s' \<and> quality s' \<le> 100 \<and> 1 \<le> effort s' \<and> effort s' \<le> 9) \<and>
   (set_quality (s, e) = Returned (s1, e1) \<or> set_quality (s, e) = Raised err (s1, e1) \<longrightarrow>
      effort s1 = effort s \<and>
      (quality s1 = quality s \<or>
       (\<exists>v ks. input_dialog_run (str_int (quality s)) (keys e) = Some (Some v, ks) \<and>
          v \<noteq> [] \<and> list_all is_ascii_digit v \<and> quality s1 = int (int_of_digits v) \<and>
          1 \<le> quality s1 \<and> quality s1 \<le> 100))) \<and>
   (input_dialog_run (str_int (quality s)) (keys e) = Some (Some v, ks) \<and>
    v \<noteq> [] \<and> list_all is_ascii_digit v \<and> length v \<le> 4300 \<and>
    1 \<le> int (int_of_digits v) \<and> int (int_of_digits v) \<le> 100 \<longrightarrow>
      (\<exists>s2 e2. set_quality (s, e) = Returned (s2, e2) \<and> quality s2 = int (int_of_digits v))) \<and>
   (set_effort (s, e) = Returned (s1, e1) \<or> set_effort (s, e) = Raised err (s1, e1) \<longrightarrow>
      quality s1 = quality s \<and>
      (effort s1 = effort s \<or>
       (\<exists>v ks. input_dialog_run (str_int (effort s)) (keys e) = Some (Some v, ks) \<and>
          v \<noteq> [] \<and> list_all is_ascii_digit v \<and> effort s1 = int (int_of_digits v) \<and>
          1 \<le> effort s1 \<and> effort s1 \<le> 9))) \<and>
   (input_dialog_run (str_int (effort s)) (keys e) = Some (Some v, ks) \<and>
    v \<noteq> [] \<and> list_all is_ascii_digit v \<and> length v \<le> 4300 \<and>
    1 \<le> int (int_of_digits v) \<and> int (int_of_digits v) \<le> 9 \<longrightarrow>
      (\<exists>s2 e2. set_effort (s, e) = Returned (s2, e2) \<and> effort s2 = int (int_of_digits v)))"
proof (intro conjI impI)
  show "quality (init dir cwd cjxl magick e0) = 90"
    by (simp add: init_def load_files_def show_message_def Let_def split: sum.splits)
  show "effort (init dir cwd cjxl magick e0) = 7"
    by (simp add: init_def load_files_def show_message_def Let_def split: sum.splits)
next
  assume a: "1 \<le> quality s \<and> quality s \<le> 100 \<and> 1 \<le> effort s \<and> effort s \<le> 9 \<and>
    (ticks n (s, e) = Returned (quit, s', e') \<or> ticks n (s, e) = Raised err (quit, s', e'))"
  with evolves_ticks [of s n e] have "evolves s s'" by auto
  with a have "1 \<le> quality s' \<and> quality s' \<le> 100 \<and> 1 \<le> effort s' \<and> effort s' \<le> 9"
    by (auto simp: evolves_def)
  then show "1 \<le> quality s'" "quality s' \<le> 100" "1 \<le> effort s'" "effort s' \<le> 9"
    by simp_all
next
  assume "set_quality (s, e) = Returned (s1, e1) \<or> set_quality (s, e) = Raised err (s1, e1)"
  then show "effort s1 = effort s"
    by (auto simp: set_quality_def Let_def show_message_def
        split: option.splits sum.splits if_splits)
next
  assume "set_quality (s, e) = Returned (s1, e1) \<or> set_quality (s, e) = Raised err (s1, e1)"
  then show "quality s1 = quality s \<or>
       (\<exists>v ks. input_dialog_run (str_int (quality s)) (keys e) = Some (Some v, ks) \<and>
          v \<noteq> [] \<and> list_all is_ascii_digit v \<and> quality s1 = int (int_of_digits v) \<and>
          1 \<le> quality s1 \<and> quality s1 \<le> 100)"
    by (auto simp: set_quality_def Let_def show_message_def py_int_def
        split: option.splits sum.splits if_splits)
next
  assume a: "input_dialog_run (str_int (quality s)) (keys e) = Some (Some v, ks) \<and>
    v \<noteq> [] \<and> list_all is_ascii_digit v \<and> length v \<le> 4300 \<and>
    1 \<le> int (int_of_digits v) \<and> int (int_of_digits v) \<le> 100"
  then have "isdigit v" by (auto simp: isdigit_def char_isdigit_def list_all_iff)
  with a show "\<exists>s2 e2. set_quality (s, e) = Returned (s2, e2) \<and> quality s2 = int (int_of_digits v)"
    by (simp add: set_quality_def Let_def show_message_def py_int_def)
next
  assume "set_effort (s, e) = Returned (s1, e1) \<or> set_effort (s, e) = Raised err (s1, e1)"
  then show "quality s1 = quality s"
    by (auto simp: set_effort_def Let_def show_message_def
        split: option.splits sum.splits if_splits)
next
  assume "set_effort (s, e) = Returned (s1, e1) \<or> set_effort (s, e) = Raised err (s1, e1)"
  then show "effort s1 = effort s \<or>
       (\<exists>v ks. input_dialog_run (str_int (effort s)) (keys e) = Some (Some v, ks) \<and>
          v \<noteq> [] \<and> list_all is_ascii_digit v \<and> effort s1 = int (int_of_digits v) \<and>
          1 \<le> effort s1 \<and> effort s1 \<le> 9)"
    by (auto simp: set_effort_def Let_def show_message_def py_int_def
        split: option.splits sum.splits if_splits)
next
  assume a: "input_dialog_run (str_int (effort s)) (keys e) = Some (Some v, ks) \<and>
    v \<noteq> [] \<and> list_all is_ascii_digit v \<and> length v \<le> 4300 \<and>
    1 \<le> int (int_of_digits v) \<and> int (int_of_digits v) \<le> 9"
  then have "isdigit v" by (auto simp: isdigit_def char_isdigit_def list_all_iff)
  with a show "\<exists>s2 e2. set_effort (s, e) = Returned (s2, e2) \<and> effort s2 = int (int_of_digits v)"
    by (simp add: set_effort_def Let_def show_message_def py_int_def)
qed

text \<open>
  In the example session the user presses \<^verbatim>\<open>Q\<close>, deletes the text \<^verbatim>\<open>90\<close> of the dialog, types
  \<^verbatim>\<open>85\<close> and presses Enter: the quality becomes 85. Typing \<^verbatim>\<open>1\<close> after the \<^verbatim>\<open>90\<close> gives
  \<^verbatim>\<open>901\<close>, which is refused; ESC cancels. For the effort, \<^verbatim>\<open>7\<close> is replaced by \<^verbatim>\<open>3\<close>.
\<close>

lemma dialog_85: "input_dialog_run ''90'' [127, 127, 56, 53, 10] = Some (Some ''85'', [])"
  by (simp add: KEY_RESIZE_def KEY_ENTER_def KEY_BACKSPACE_def chr_def char_of_def)

lemma dialog_3: "input_dialog_run ''7'' [127, 51, 10] = Some (Some ''3'', [])"
  by (simp add: KEY_RESIZE_def KEY_ENTER_def KEY_BACKSPACE_def chr_def char_of_def)

lemma example_settings:
  "str_int (quality example_tui) = ''90''" "str_int (effort example_tui) = ''7''"
  "1 \<le> quality example_tui \<and> quality example_tui \<le> 100 \<and>
   1 \<le> effort example_tui \<and> effort example_tui \<le> 9"
  by (simp_all add: example_tui_eq str_int_def str_nat_small str_nat_big digit_char_def)

lemma digits_85:
  "list_all is_ascii_digit ''85''" "int (int_of_digits ''85'') = 85"
  "list_all is_ascii_digit ''3''" "int (int_of_digits ''3'') = 3"
  by (simp_all add: is_ascii_digit_def int_of_digits_def digit_val_def)

lemma tick_quality:
  "ticks (Suc 0) (example_tui, example_env\<lparr>keys := [81, - 1, 127, 127, 56, 53, 10]\<rparr>)
     = Returned (False,
         example_tui\<lparr>status_message := ''Quality set to 85'', quality := 85\<rparr>, example_env)"
  by (simp add: tick_def process_key_def handle_input_def get_visible_files_def adjust_scroll_def
      clamp_row_def process_status_queue_def finish_batch_def set_quality_def key_eval
      example_settings dialog_85 isdigit_def char_isdigit_def is_ascii_digit_def py_int_def
      int_of_digits_def digit_val_def show_message_def str_int_def str_nat_small str_nat_big
      digit_char_def Let_def example_env_def example_tui_eq)

theorem settings_stay_in_range_witness:
  "ticks (Suc 0) (example_tui, example_env\<lparr>keys := [81, - 1, 127, 127, 56, 53, 10]\<rparr>)
     = Returned (False,
         example_tui\<lparr>status_message := ''Quality set to 85'', quality := 85\<rparr>, example_env) \<and>
   1 \<le> quality (example_tui\<lparr>status_message := ''Quality set to 85'', quality := 85\<rparr>) \<and>
   quality (example_tui\<lparr>status_message := ''Quality set to 85'', quality := 85\<rparr>) \<le> 100 \<and>
   quality example_tui = 90 \<and> effort example_tui = 7 \<and>
   (\<exists>s2 e2. set_quality (example_tui, example_env\<lparr>keys := [127, 127, 56, 53, 10]\<rparr>)
              = Returned (s2, e2) \<and> quality s2 = 85) \<and>
   (\<exists>s2 e2. set_effort (example_tui, example_env\<lparr>keys := [127, 51, 10]\<rparr>)
              = Returned (s2, e2) \<and> effort s2 = 3) \<and>
   set_quality (example_tui, example_env\<lparr>keys := [49, 10]\<rparr>)
     = Returned (show_message ''Quality must be between 1 and 100.'' 4 example_tui, example_env) \<and>
   set_quality (example_tui, example_env\<lparr>keys := [27]\<rparr>) = Returned (example_tui, example_env)"
proof -
  let ?s' = "example_tui\<lparr>status_message := ''Quality set to 85'', quality := 85\<rparr>"
  have a: "1 \<le> quality ?s' \<and> quality ?s' \<le> 100"
    using settings_stay_in_range [where s = example_tui
        and e = "example_env\<lparr>keys := [81, - 1, 127, 127, 56, 53, 10]\<rparr>" and n = "Suc 0"
        and quit = False and s' = ?s' and e' = example_env]
      tick_quality example_settings(3)
    by blast
  have b: "quality example_tui = 90 \<and> effort example_tui = 7"
    using settings_stay_in_range [where dir = "[''pics'']" and cwd = "[]"
        and cjxl = "Some ''/usr/bin/cjxl''" and magick = "Some ''/usr/bin/magick''"
        and ?e0.0 = example_env]
    by (simp add: example_tui_def)
  have c: "\<exists>s2 e2. set_quality (example_tui, example_env\<lparr>keys := [127, 127, 56, 53, 10]\<rparr>)
              = Returned (s2, e2) \<and> quality s2 = 85"
    using settings_stay_in_range [where s = example_tui
        and e = "example_env\<lparr>keys := [127, 127, 56, 53, 10]\<rparr>" and v = "''85''" and ks = "[]"]
      example_settings(1) dialog_85 digits_85
    by simp
  have d: "\<exists>s2 e2. set_effort (example_tui, example_env\<lparr>keys := [127, 51, 10]\<rparr>)
              = Returned (s2, e2) \<and> effort s2 = 3"
    using settings_stay_in_range [where s = example_tui
        and e = "example_env\<lparr>keys := [127, 51, 10]\<rparr>" and v = "''3''" and ks = "[]"]
      example_settings(2) dialog_3 digits_85
    by simp
  have f: "set_quality (example_tui, example_env\<lparr>keys := [49, 10]\<rparr>)
     = Returned (show_message ''Quality must be between 1 and 100.'' 4 example_tui, example_env)"
    by (simp add: set_quality_def example_settings key_eval isdigit_def char_isdigit_def
        is_ascii_digit_def py_int_def int_of_digits_def digit_val_def Let_def example_env_def)
  have g: "set_quality (example_tui, example_env\<lparr>keys := [27]\<rparr>) = Returned (example_tui, example_env)"
    by (simp add: set_quality_def example_settings key_eval Let_def example_env_def)
  from tick_quality a b c d f g show ?thesis by simp
qed

end
